theory Spec2Isabelle
  imports Complex_Main "HOL-Library.Multiset"
begin

section \<open>The event envelope\<close>

text \<open>
  Modelled from the spec: the declarations of \<open>EventType\<close>, of its five constants and of
  \<open>LogEntry\<close> live in a file of the package that is not among the sources. \<open>EventType\<close>
  is a string type (the recorder converts it with \<open>string(entry.EventType)\<close>), so any
  string is a possible event type. The five constants are the kinds the spec names; the
  development only relies on their being pairwise different, which Go's \<open>switch\<close> in
  \<open>OnAfterEvent\<close> requires of them anyway.
\<close>

type_synonym EventType = string

definition EventEnforce :: EventType where
  "EventEnforce = ''enforce''"

definition EventAddPolicy :: EventType where
  "EventAddPolicy = ''addPolicy''"

definition EventRemovePolicy :: EventType where
  "EventRemovePolicy = ''removePolicy''"

definition EventLoadPolicy :: EventType where
  "EventLoadPolicy = ''loadPolicy''"

definition EventSavePolicy :: EventType where
  "EventSavePolicy = ''savePolicy''"

text \<open>
  A \<open>time.Time\<close> is an instant of the clock in nanoseconds; a \<open>time.Duration\<close> is a
  signed 64-bit count of nanoseconds. \<open>Time.Sub\<close> saturates at the ends of that range.
  A Go \<open>error\<close> is its message, \<open>nil\<close> is \<open>None\<close>.
\<close>

type_synonym Time = int
type_synonym Duration = int
type_synonym go_error = string

definition maxDuration :: Duration where
  "maxDuration = 2 ^ 63 - 1"

definition minDuration :: Duration where
  "minDuration = - (2 ^ 63)"

definition Sub :: "Time \<Rightarrow> Time \<Rightarrow> Duration" where
  "Sub t u =
     (let d = t - u
      in if d > maxDuration then maxDuration
         else if d < minDuration then minDuration
         else d)"

text \<open>\<open>Duration.Seconds\<close>, as an exact number (the rounding to a float64 is left out).\<close>

definition Seconds :: "Duration \<Rightarrow> real" where
  "Seconds d = real_of_int d / 1000000000"

text \<open>
  Modelled from the spec: the fields of \<open>LogEntry\<close> that the recorder reads or writes.
  \<open>Domain'\<close> is the field \<open>Domain\<close>.
\<close>

record LogEntry =
  IsActive :: bool
  EventType :: EventType
  StartTime :: Time
  EndTime :: Time
  Duration :: Duration
  Subject :: string
  Object :: string
  Action :: string
  Domain' :: string
  Allowed :: bool
  RuleCount :: int
  Error :: "go_error option"

section \<open>The metric backend\<close>

text \<open>
  A metric vector of the client library: a fully-qualified name, a help string, the names
  of its variable labels, and one child per label-value vector. A counter child is the
  number of its increments, a histogram child the list of its observations in order, a
  gauge child its current value. \<open>WithLabelValues\<close> panics when the number of values is
  not the number of label names, and then when one of the values is not valid UTF-8; it
  creates the child (at the zero value) when there is none.
\<close>

record 'v MetricVec =
  fqName :: string
  Help :: string
  variableLabels :: "string list"
  series :: "string list \<rightharpoonup> 'v"

type_synonym CounterVec = "nat MetricVec"
type_synonym HistogramVec = "real list MetricVec"
type_synonym GaugeVec = "real MetricVec"

datatype panic =
    InconsistentCardinality string
  | InvalidLabelValue string
  | InvalidDescriptor string
  | InconsistentDescriptor string
  | AlreadyRegistered string

text \<open>
  \<open>utf8.ValidString\<close> of the standard library, on the bytes of the string. A first byte
  below 0x80 is a character of its own; any other first byte fixes how many continuation
  bytes follow and the range of the first of them (which excludes overlong forms,
  surrogates and code points above U+10FFFF); the later ones are in 0x80 to 0xBF.
\<close>

definition utf8_start :: "nat \<Rightarrow> (nat \<times> nat \<times> nat) option" where
  "utf8_start b =
     (if b < 0x80 then Some (0, 0x80, 0xBF)
      else if 0xC2 \<le> b \<and> b \<le> 0xDF then Some (1, 0x80, 0xBF)
      else if b = 0xE0 then Some (2, 0xA0, 0xBF)
      else if (0xE1 \<le> b \<and> b \<le> 0xEC) \<or> b = 0xEE \<or> b = 0xEF then Some (2, 0x80, 0xBF)
      else if b = 0xED then Some (2, 0x80, 0x9F)
      else if b = 0xF0 then Some (3, 0x90, 0xBF)
      else if 0xF1 \<le> b \<and> b \<le> 0xF3 then Some (3, 0x80, 0xBF)
      else if b = 0xF4 then Some (3, 0x80, 0x8F)
      else None)"

primrec utf8_scan :: "string \<Rightarrow> nat \<Rightarrow> nat \<Rightarrow> nat \<Rightarrow> bool" where
  "utf8_scan [] need lo hi = (need = 0)"
| "utf8_scan (c # cs) need lo hi =
     (if need = 0
      then (case utf8_start (of_char c) of
              None \<Rightarrow> False
            | Some (n, l, h) \<Rightarrow> utf8_scan cs n l h)
      else lo \<le> of_char c \<and> of_char c \<le> hi \<and> utf8_scan cs (need - 1) 0x80 0xBF)"

definition ValidString :: "string \<Rightarrow> bool" where
  "ValidString s = utf8_scan s 0 0 0"

definition child :: "'v \<Rightarrow> 'v MetricVec \<Rightarrow> string list \<Rightarrow> 'v" where
  "child zero vec lvs = (case series vec lvs of None \<Rightarrow> zero | Some v \<Rightarrow> v)"

definition WithLabelValues ::
  "'v \<Rightarrow> ('v \<Rightarrow> 'v) \<Rightarrow> 'v MetricVec \<Rightarrow> string list \<Rightarrow> panic + 'v MetricVec" where
  "WithLabelValues zero f vec lvs =
     (if length lvs \<noteq> length (variableLabels vec)
      then Inl (InconsistentCardinality (fqName vec))
      else case find (\<lambda>val. \<not> ValidString val) lvs of
             Some val \<Rightarrow> Inl (InvalidLabelValue val)
           | None \<Rightarrow> Inr (vec\<lparr>series := (series vec)(lvs \<mapsto> f (child zero vec lvs))\<rparr>))"

definition counter_Inc :: "CounterVec \<Rightarrow> string list \<Rightarrow> panic + CounterVec" where
  "counter_Inc = WithLabelValues 0 (\<lambda>c. c + 1)"

definition histogram_Observe :: "real \<Rightarrow> HistogramVec \<Rightarrow> string list \<Rightarrow> panic + HistogramVec" where
  "histogram_Observe x = WithLabelValues [] (\<lambda>obs. obs @ [x])"

definition gauge_Set :: "real \<Rightarrow> GaugeVec \<Rightarrow> string list \<Rightarrow> panic + GaugeVec" where
  "gauge_Set x = WithLabelValues 0 (\<lambda>_. x)"

text \<open>What a call of the recorder does to the outside, in program order.\<close>

datatype effect =
    EObserve string "string list" real
  | EInc string "string list"
  | ESet string "string list" real
  | ECallback LogEntry

fun is_callback :: "effect \<Rightarrow> bool" where
  "is_callback (ECallback _) = True"
| "is_callback _ = False"

section \<open>The recorder\<close>

text \<open>
  The struct \<open>PrometheusLogger\<close>. The callback is a Go closure; it is modelled as an
  observer of the entry that yields an error value.
\<close>

record PrometheusLogger =
  enabledEventTypes :: "EventType \<rightharpoonup> bool"
  callback :: "(LogEntry \<Rightarrow> go_error option) option"
  enforceLabels :: "string list"
  enforceDuration :: HistogramVec
  enforceTotal :: CounterVec
  policyOpsTotal :: CounterVec
  policyOpsDuration :: HistogramVec
  policyRulesCount :: GaugeVec
  policyStateCount :: GaugeVec

record PrometheusLoggerOptions =
  EnforceLabels :: "string list"

text \<open>\<open>SetEventTypes\<close>: a fresh map, then one store of \<open>true\<close> per element.\<close>

fun storeEventTypes :: "(EventType \<rightharpoonup> bool) \<Rightarrow> EventType list \<Rightarrow> (EventType \<rightharpoonup> bool)" where
  "storeEventTypes m [] = m"
| "storeEventTypes m (eventType # rest) = storeEventTypes (m(eventType \<mapsto> True)) rest"

definition SetEventTypes ::
  "PrometheusLogger \<Rightarrow> EventType list \<Rightarrow> PrometheusLogger \<times> go_error option" where
  "SetEventTypes p eventTypes =
     (p\<lparr>enabledEventTypes := storeEventTypes Map.empty eventTypes\<rparr>, None)"

definition SetLogCallback ::
  "PrometheusLogger \<Rightarrow> (LogEntry \<Rightarrow> go_error option) option \<Rightarrow> PrometheusLogger \<times> go_error option" where
  "SetLogCallback p cb = (p\<lparr>callback := cb\<rparr>, None)"

text \<open>Reading a Go map of booleans: a missing key reads as \<open>false\<close>.\<close>

definition lookupFlag :: "('k \<rightharpoonup> bool) \<Rightarrow> 'k \<Rightarrow> bool" where
  "lookupFlag m k = (case m k of None \<Rightarrow> False | Some b \<Rightarrow> b)"

text \<open>\<open>OnBeforeEvent\<close>; \<open>now\<close> is what \<open>time.Now()\<close> returns when it is called.\<close>

definition OnBeforeEvent ::
  "PrometheusLogger \<Rightarrow> LogEntry \<Rightarrow> Time \<Rightarrow> LogEntry \<times> go_error option" where
  "OnBeforeEvent p entry now =
     (if dom (enabledEventTypes p) \<noteq> {} \<and> \<not> lookupFlag (enabledEventTypes p) (EventType entry)
      then (entry\<lparr>IsActive := False\<rparr>, None)
      else (entry\<lparr>IsActive := True, StartTime := now\<rparr>, None))"

text \<open>
  The label projector inside \<open>recordEnforceMetrics\<close>: a slice of \<open>len(p.enforceLabels)\<close>
  empty strings, then the loop over the label names, which writes position \<open>i\<close> for the
  five names of the \<open>switch\<close> and leaves it alone for any other name.
\<close>

definition storeLabelValue ::
  "string \<Rightarrow> string \<Rightarrow> LogEntry \<Rightarrow> nat \<Rightarrow> string \<Rightarrow> string list \<Rightarrow> string list" where
  "storeLabelValue allowed domain entry i label labelValues =
     (if label = ''allowed'' then labelValues[i := allowed]
      else if label = ''domain'' then labelValues[i := domain]
      else if label = ''subject'' then labelValues[i := Subject entry]
      else if label = ''object'' then labelValues[i := Object entry]
      else if label = ''action'' then labelValues[i := Action entry]
      else labelValues)"

primrec fillLabelValues ::
  "string \<Rightarrow> string \<Rightarrow> LogEntry \<Rightarrow> string list \<Rightarrow> nat \<Rightarrow> string list \<Rightarrow> string list" where
  "fillLabelValues allowed domain entry [] i labelValues = labelValues"
| "fillLabelValues allowed domain entry (label # rest) i labelValues =
     fillLabelValues allowed domain entry rest (Suc i)
       (storeLabelValue allowed domain entry i label labelValues)"

definition projectLabels :: "string list \<Rightarrow> LogEntry \<Rightarrow> string list" where
  "projectLabels labels entry =
     (let domain = (if Domain' entry = [] then ''default'' else Domain' entry);
          allowed = (if Allowed entry then ''true'' else ''false'')
      in fillLabelValues allowed domain entry labels 0 (replicate (length labels) []))"

text \<open>
  The two recording methods. A panic of the backend leaves the method at once; \<open>Inl\<close>
  carries the panic with the recorder and what had been done when it happened.
\<close>

definition recordEnforceMetrics ::
  "PrometheusLogger \<Rightarrow> LogEntry
     \<Rightarrow> (panic \<times> PrometheusLogger \<times> effect list) + (PrometheusLogger \<times> effect list)" where
  "recordEnforceMetrics p entry =
     (let labelValues = projectLabels (enforceLabels p) entry;
          secs = Seconds (Duration entry)
      in case histogram_Observe secs (enforceDuration p) labelValues of
           Inl e \<Rightarrow> Inl (e, p, [])
         | Inr h \<Rightarrow>
             (case counter_Inc (enforceTotal p) labelValues of
                Inl e \<Rightarrow>
                  Inl (e, p\<lparr>enforceDuration := h\<rparr>, [EObserve (fqName h) labelValues secs])
              | Inr c \<Rightarrow>
                  Inr (p\<lparr>enforceDuration := h, enforceTotal := c\<rparr>,
                       [EObserve (fqName h) labelValues secs, EInc (fqName c) labelValues])))"

definition recordPolicyMetrics ::
  "PrometheusLogger \<Rightarrow> LogEntry
     \<Rightarrow> (panic \<times> PrometheusLogger \<times> effect list) + (PrometheusLogger \<times> effect list)" where
  "recordPolicyMetrics p entry =
     (let operation = EventType entry;
          success = (if Error entry \<noteq> None then ''false'' else ''true'');
          secs = Seconds (Duration entry)
      in case counter_Inc (policyOpsTotal p) [operation, success] of
           Inl e \<Rightarrow> Inl (e, p, [])
         | Inr c \<Rightarrow>
             (case histogram_Observe secs (policyOpsDuration p) [operation] of
                Inl e \<Rightarrow>
                  Inl (e, p\<lparr>policyOpsTotal := c\<rparr>, [EInc (fqName c) [operation, success]])
              | Inr h \<Rightarrow>
                  (if RuleCount entry > 0
                   then (case gauge_Set (real_of_int (RuleCount entry)) (policyRulesCount p) [operation] of
                           Inl e \<Rightarrow>
                             Inl (e, p\<lparr>policyOpsTotal := c, policyOpsDuration := h\<rparr>,
                                  [EInc (fqName c) [operation, success],
                                   EObserve (fqName h) [operation] secs])
                         | Inr g \<Rightarrow>
                             Inr (p\<lparr>policyOpsTotal := c, policyOpsDuration := h, policyRulesCount := g\<rparr>,
                                  [EInc (fqName c) [operation, success],
                                   EObserve (fqName h) [operation] secs,
                                   ESet (fqName g) [operation] (real_of_int (RuleCount entry))]))
                   else Inr (p\<lparr>policyOpsTotal := c, policyOpsDuration := h\<rparr>,
                             [EInc (fqName c) [operation, success],
                              EObserve (fqName h) [operation] secs]))))"

text \<open>
  \<open>OnAfterEvent\<close> returns the recorder and the entry as it leaves them, the error it
  returns, and what it did. \<open>Inl\<close> is a panic of the metric backend, with the recorder
  and the entry as the panic leaves them: the entry has its \<open>EndTime\<close> and \<open>Duration\<close>
  by then, and the callback has not been reached.
\<close>

record HookResult =
  res_logger :: PrometheusLogger
  res_entry :: LogEntry
  res_err :: "go_error option"
  res_effects :: "effect list"

record Panicked =
  pan_value :: panic
  pan_logger :: PrometheusLogger
  pan_entry :: LogEntry
  pan_effects :: "effect list"

definition OnAfterEvent :: "PrometheusLogger \<Rightarrow> LogEntry \<Rightarrow> Time \<Rightarrow> Panicked + HookResult" where
  "OnAfterEvent p entry now =
     (if \<not> IsActive entry
      then Inr \<lparr>res_logger = p, res_entry = entry, res_err = None, res_effects = []\<rparr>
      else
        let entry1 = entry\<lparr>EndTime := now\<rparr>;
            entry2 = entry1\<lparr>Duration := Sub (EndTime entry1) (StartTime entry1)\<rparr>
        in case (if EventType entry2 = EventEnforce then recordEnforceMetrics p entry2
                 else if EventType entry2 = EventAddPolicy \<or> EventType entry2 = EventRemovePolicy
                         \<or> EventType entry2 = EventLoadPolicy \<or> EventType entry2 = EventSavePolicy
                 then recordPolicyMetrics p entry2
                 else Inr (p, [])) of
             Inl (e, p', effs) \<Rightarrow>
               Inl \<lparr>pan_value = e, pan_logger = p', pan_entry = entry2, pan_effects = effs\<rparr>
           | Inr (p', effs) \<Rightarrow>
               (case callback p' of
                  Some cb \<Rightarrow>
                    Inr \<lparr>res_logger = p', res_entry = entry2, res_err = cb entry2,
                         res_effects = effs @ [ECallback entry2]\<rparr>
                | None \<Rightarrow>
                    Inr \<lparr>res_logger = p', res_entry = entry2, res_err = None,
                         res_effects = effs\<rparr>))"

text \<open>\<open>UpdatePolicyState\<close>; a panic leaves the recorder as it was.\<close>

definition UpdatePolicyState :: "PrometheusLogger \<Rightarrow> string \<Rightarrow> int \<Rightarrow> panic + PrometheusLogger" where
  "UpdatePolicyState p ptype n =
     (case gauge_Set (real_of_int n) (policyStateCount p) [ptype] of
        Inl e \<Rightarrow> Inl e
      | Inr g \<Rightarrow> Inr (p\<lparr>policyStateCount := g\<rparr>))"

section \<open>Registration\<close>

text \<open>
  A registry of the client library, as far as the recorder uses it. A collector is
  identified by the fully-qualified name of its descriptor (the recorder's families have no
  constant labels). \<open>Register\<close> refuses a descriptor whose label names repeat, a
  descriptor whose help string or label names, whatever their order, differ from what the
  registry has seen under the same name, and a name that is registered. \<open>Unregister\<close>
  reports whether the collector was registered and removes it; the registry keeps what it
  has seen under the name, since one registry must collect consistent metrics throughout
  its lifetime.
\<close>

record Registry =
  collectors :: "string set"
  dimsByName :: "string \<rightharpoonup> string multiset \<times> string"

definition Register :: "Registry \<Rightarrow> 'v MetricVec \<Rightarrow> panic + Registry" where
  "Register r c =
     (if \<not> distinct (variableLabels c) then Inl (InvalidDescriptor (fqName c))
      else if (case dimsByName r (fqName c) of
                 None \<Rightarrow> False
               | Some d \<Rightarrow> d \<noteq> (mset (variableLabels c), Help c))
      then Inl (InconsistentDescriptor (fqName c))
      else if fqName c \<in> collectors r then Inl (AlreadyRegistered (fqName c))
      else Inr (r\<lparr>collectors := insert (fqName c) (collectors r),
                   dimsByName := (dimsByName r)(fqName c \<mapsto> (mset (variableLabels c), Help c))\<rparr>))"

definition Unregister :: "Registry \<Rightarrow> 'v MetricVec \<Rightarrow> bool \<times> Registry" where
  "Unregister r c =
     (if fqName c \<in> collectors r
      then (True, r\<lparr>collectors := collectors r - {fqName c}\<rparr>)
      else (False, r))"

definition andThen :: "panic + 'a \<Rightarrow> ('a \<Rightarrow> panic + 'b) \<Rightarrow> panic + 'b" where
  "andThen x f = (case x of Inl e \<Rightarrow> Inl e | Inr a \<Rightarrow> f a)"

text \<open>\<open>MustRegister\<close> of the six families, in the order of the call.\<close>

definition MustRegister :: "Registry \<Rightarrow> PrometheusLogger \<Rightarrow> panic + Registry" where
  "MustRegister r logger =
     andThen (Register r (enforceDuration logger)) (\<lambda>r.
     andThen (Register r (enforceTotal logger)) (\<lambda>r.
     andThen (Register r (policyOpsTotal logger)) (\<lambda>r.
     andThen (Register r (policyOpsDuration logger)) (\<lambda>r.
     andThen (Register r (policyRulesCount logger)) (\<lambda>r.
     Register r (policyStateCount logger))))))"

text \<open>The loop of the constructor over \<open>options.EnforceLabels\<close>.\<close>

primrec appendEnforceLabels :: "string list \<Rightarrow> string list \<Rightarrow> string list" where
  "appendEnforceLabels [] labels = labels"
| "appendEnforceLabels (label # rest) labels =
     appendEnforceLabels rest
       (if label = ''subject'' \<or> label = ''object'' \<or> label = ''action''
        then labels @ [label]
        else labels)"

text \<open>The struct literal of the constructor.\<close>

definition newLogger :: "string list \<Rightarrow> PrometheusLogger" where
  "newLogger labels =
     \<lparr>enabledEventTypes = Map.empty,
      callback = None,
      enforceLabels = labels,
      enforceDuration =
        \<lparr>fqName = ''casbin_enforce_duration_seconds'',
         Help = ''Duration of enforce requests in seconds'',
         variableLabels = labels, series = Map.empty\<rparr>,
      enforceTotal =
        \<lparr>fqName = ''casbin_enforce_total'',
         Help = ''Total number of enforce requests'',
         variableLabels = labels, series = Map.empty\<rparr>,
      policyOpsTotal =
        \<lparr>fqName = ''casbin_policy_operations_total'',
         Help = ''Total number of policy operations'',
         variableLabels = [''operation'', ''success''], series = Map.empty\<rparr>,
      policyOpsDuration =
        \<lparr>fqName = ''casbin_policy_operations_duration_seconds'',
         Help = ''Duration of policy operations in seconds'',
         variableLabels = [''operation''], series = Map.empty\<rparr>,
      policyRulesCount =
        \<lparr>fqName = ''casbin_policy_rules_count'',
         Help = ''Number of policy rules affected by operations'',
         variableLabels = [''operation''], series = Map.empty\<rparr>,
      policyStateCount =
        \<lparr>fqName = ''casbin_policy_state_count'',
         Help = ''Current number of policy rules by type'',
         variableLabels = [''ptype''], series = Map.empty\<rparr>\<rparr>"

text \<open>
  \<open>NewPrometheusLoggerWithOptions\<close>. The third argument is the default registry of the
  process, which a nil \<open>registry\<close> selects; the result carries both registries as the
  call leaves them. \<open>Inl\<close> is the panic of \<open>MustRegister\<close>.
\<close>

definition NewPrometheusLoggerWithOptions ::
  "Registry option \<Rightarrow> PrometheusLoggerOptions option \<Rightarrow> Registry
     \<Rightarrow> panic + (PrometheusLogger \<times> Registry option \<times> Registry)" where
  "NewPrometheusLoggerWithOptions registry options defaultRegistry =
     (let options' = (case options of None \<Rightarrow> \<lparr>EnforceLabels = []\<rparr> | Some opts \<Rightarrow> opts);
          labels = appendEnforceLabels (EnforceLabels options') [''allowed'', ''domain''];
          logger = newLogger labels
      in case registry of
           Some r \<Rightarrow>
             andThen (MustRegister r logger) (\<lambda>r'. Inr (logger, Some r', defaultRegistry))
         | None \<Rightarrow>
             andThen (MustRegister defaultRegistry logger) (\<lambda>d'. Inr (logger, None, d')))"

text \<open>
  \<open>UnregisterFrom\<close>: each line calls \<open>registry.Unregister\<close> first and then folds its
  answer into \<open>result\<close>, so all six calls are made whatever the answers are.
\<close>

definition UnregisterFrom :: "PrometheusLogger \<Rightarrow> Registry \<Rightarrow> bool \<times> Registry" where
  "UnregisterFrom p registry =
     (let result = True;
          (ok, registry) = Unregister registry (enforceDuration p); result = (ok \<and> result);
          (ok, registry) = Unregister registry (enforceTotal p); result = (ok \<and> result);
          (ok, registry) = Unregister registry (policyOpsTotal p); result = (ok \<and> result);
          (ok, registry) = Unregister registry (policyOpsDuration p); result = (ok \<and> result);
          (ok, registry) = Unregister registry (policyRulesCount p); result = (ok \<and> result);
          (ok, registry) = Unregister registry (policyStateCount p); result = (ok \<and> result)
      in (result, registry))"

text \<open>The recorders a program can hold: built by the constructor, then used through the methods.\<close>

inductive reachable :: "PrometheusLogger \<Rightarrow> bool" where
  reach_new:
    "NewPrometheusLoggerWithOptions registry options defaultRegistry = Inr (p, registry', defaultRegistry')
       \<Longrightarrow> reachable p"
| reach_events: "reachable p \<Longrightarrow> reachable (fst (SetEventTypes p eventTypes))"
| reach_callback: "reachable p \<Longrightarrow> reachable (fst (SetLogCallback p cb))"
| reach_after: "reachable p \<Longrightarrow> OnAfterEvent p entry now = Inr r \<Longrightarrow> reachable (res_logger r)"
| reach_panic: "reachable p \<Longrightarrow> OnAfterEvent p entry now = Inl x \<Longrightarrow> reachable (pan_logger x)"
| reach_state: "reachable p \<Longrightarrow> UpdatePolicyState p ptype n = Inr p' \<Longrightarrow> reachable p'"

section \<open>Notions used by the properties\<close>

text \<open>The enabled event types: the keys of the map that read as \<open>true\<close>.\<close>

definition enabledSet :: "PrometheusLogger \<Rightarrow> EventType set" where
  "enabledSet p = {k. enabledEventTypes p k = Some True}"

text \<open>No key of the map of enabled event types holds \<open>false\<close>.\<close>

definition flags_true :: "PrometheusLogger \<Rightarrow> bool" where
  "flags_true p \<longleftrightarrow> (\<forall>k. enabledEventTypes p k \<noteq> Some False)"

text \<open>
  The label names of the six families are the ones the constructor gives them; for the two
  enforcement families that is the list \<open>enforceLabels\<close> of the recorder.
\<close>

definition schema_ok :: "PrometheusLogger \<Rightarrow> bool" where
  "schema_ok p \<longleftrightarrow>
     variableLabels (enforceDuration p) = enforceLabels p \<and>
     variableLabels (enforceTotal p) = enforceLabels p \<and>
     variableLabels (policyOpsTotal p) = [''operation'', ''success''] \<and>
     variableLabels (policyOpsDuration p) = [''operation''] \<and>
     variableLabels (policyRulesCount p) = [''operation''] \<and>
     variableLabels (policyStateCount p) = [''ptype'']"

text \<open>Two recorders with the same configuration and the same label schemas.\<close>

definition same_setup :: "PrometheusLogger \<Rightarrow> PrometheusLogger \<Rightarrow> bool" where
  "same_setup p q \<longleftrightarrow>
     enabledEventTypes q = enabledEventTypes p \<and> callback q = callback p \<and>
     enforceLabels q = enforceLabels p \<and>
     variableLabels (enforceDuration q) = variableLabels (enforceDuration p) \<and>
     variableLabels (enforceTotal q) = variableLabels (enforceTotal p) \<and>
     variableLabels (policyOpsTotal q) = variableLabels (policyOpsTotal p) \<and>
     variableLabels (policyOpsDuration q) = variableLabels (policyOpsDuration p) \<and>
     variableLabels (policyRulesCount q) = variableLabels (policyRulesCount p) \<and>
     variableLabels (policyStateCount q) = variableLabels (policyStateCount p)"

text \<open>
  The value the label projector is to give to one label name: \<open>allowed\<close> is the decision
  as \<open>true\<close> or \<open>false\<close>, \<open>domain\<close> is the domain with the empty string replaced
  by \<open>default\<close>, \<open>subject\<close>, \<open>object\<close> and \<open>action\<close> are the fields as they are.
  A name outside these five leaves the empty string of the fresh slice.
\<close>

definition resolveLabel :: "LogEntry \<Rightarrow> string \<Rightarrow> string" where
  "resolveLabel entry name =
     (if name = ''allowed'' then (if Allowed entry then ''true'' else ''false'')
      else if name = ''domain'' then (if Domain' entry = [] then ''default'' else Domain' entry)
      else if name = ''subject'' then Subject entry
      else if name = ''object'' then Object entry
      else if name = ''action'' then Action entry
      else [])"

text \<open>The entry as a call of \<open>OnAfterEvent\<close> leaves it, whether it returns or panics.\<close>

definition entryAfter :: "Panicked + HookResult \<Rightarrow> LogEntry" where
  "entryAfter x = (case x of Inl y \<Rightarrow> pan_entry y | Inr r \<Rightarrow> res_entry r)"

text \<open>The label list the constructor resolves from its options.\<close>

definition resolvedLabels :: "PrometheusLoggerOptions option \<Rightarrow> string list" where
  "resolvedLabels options =
     appendEnforceLabels
       (EnforceLabels (case options of None \<Rightarrow> \<lparr>EnforceLabels = []\<rparr> | Some opts \<Rightarrow> opts))
       [''allowed'', ''domain'']"

text \<open>The names of the six families of a recorder.\<close>

definition familyNames :: "PrometheusLogger \<Rightarrow> string set" where
  "familyNames p =
     {fqName (enforceDuration p), fqName (enforceTotal p), fqName (policyOpsTotal p),
      fqName (policyOpsDuration p), fqName (policyRulesCount p), fqName (policyStateCount p)}"

section \<open>Sample values\<close>

definition emptyRegistry :: Registry where
  "emptyRegistry = \<lparr>collectors = {}, dimsByName = Map.empty\<rparr>"

definition defaultLogger :: PrometheusLogger where
  "defaultLogger = newLogger [''allowed'', ''domain'']"

definition sampleEntry :: LogEntry where
  "sampleEntry =
     \<lparr>IsActive = False, EventType = EventEnforce, StartTime = 0, EndTime = 0, Duration = 0,
      Subject = ''alice'', Object = ''data1'', Action = ''read'', Domain' = ''domain1'',
      Allowed = True, RuleCount = 0, Error = None\<rparr>"

text \<open>A callback that fails on every entry.\<close>

definition failingCallback :: "LogEntry \<Rightarrow> go_error option" where
  "failingCallback e = Some ''callback error''"

text \<open>The registry after the default recorder has been built on the empty one.\<close>

definition defaultRegistered :: Registry where
  "defaultRegistered =
     \<lparr>collectors =
        {''casbin_policy_state_count'', ''casbin_policy_rules_count'',
         ''casbin_policy_operations_duration_seconds'', ''casbin_policy_operations_total'',
         ''casbin_enforce_total'', ''casbin_enforce_duration_seconds''},
      dimsByName =
        [''casbin_enforce_duration_seconds'' \<mapsto>
           (mset [''allowed'', ''domain''], ''Duration of enforce requests in seconds''),
         ''casbin_enforce_total'' \<mapsto>
           (mset [''allowed'', ''domain''], ''Total number of enforce requests''),
         ''casbin_policy_operations_total'' \<mapsto>
           (mset [''operation'', ''success''], ''Total number of policy operations''),
         ''casbin_policy_operations_duration_seconds'' \<mapsto>
           (mset [''operation''], ''Duration of policy operations in seconds''),
         ''casbin_policy_rules_count'' \<mapsto>
           (mset [''operation''], ''Number of policy rules affected by operations''),
         ''casbin_policy_state_count'' \<mapsto>
           (mset [''ptype''], ''Current number of policy rules by type'')]\<rparr>"

section \<open>Invariants of the recorder\<close>

lemma storeEventTypes_apply:
  "storeEventTypes m ets k = (if k \<in> set ets then Some True else m k)"
  by (induction ets arbitrary: m) auto

lemma find_invalid_None: "find (\<lambda>val. \<not> ValidString val) lvs = None \<longleftrightarrow> list_all ValidString lvs"
  by (auto simp: find_None_iff list_all_iff)

lemma find_invalid_Some:
  "find (\<lambda>val. \<not> ValidString val) lvs = Some val \<Longrightarrow> val \<in> set lvs \<and> \<not> ValidString val"
  by (auto simp: find_Some_iff)

lemma WithLabelValues_Inr:
  "WithLabelValues z f vec lvs = Inr vec' \<Longrightarrow>
     length lvs = length (variableLabels vec) \<and> list_all ValidString lvs \<and>
     vec' = vec\<lparr>series := (series vec)(lvs \<mapsto> f (child z vec lvs))\<rparr>"
  by (auto simp: WithLabelValues_def find_invalid_None [symmetric] split: if_splits option.splits)

lemma WithLabelValues_ok:
  "length lvs = length (variableLabels vec) \<Longrightarrow> list_all ValidString lvs \<Longrightarrow>
     WithLabelValues z f vec lvs = Inr (vec\<lparr>series := (series vec)(lvs \<mapsto> f (child z vec lvs))\<rparr>)"
  by (simp add: WithLabelValues_def find_invalid_None [symmetric])

lemma WithLabelValues_invalid:
  "length lvs = length (variableLabels vec) \<Longrightarrow> \<not> list_all ValidString lvs \<Longrightarrow>
     \<exists>val. val \<in> set lvs \<and> \<not> ValidString val \<and>
           WithLabelValues z f vec lvs = Inl (InvalidLabelValue val)"
  by (cases "find (\<lambda>val. \<not> ValidString val) lvs")
     (auto simp: WithLabelValues_def find_invalid_None dest: find_invalid_Some)

lemma recordEnforceMetrics_panic_setup:
  "recordEnforceMetrics p entry = Inl (e, p', effs) \<Longrightarrow> same_setup p p'"
  by (auto simp: recordEnforceMetrics_def Let_def histogram_Observe_def counter_Inc_def same_setup_def
           split: sum.splits dest!: WithLabelValues_Inr)

lemma recordPolicyMetrics_panic_setup:
  "recordPolicyMetrics p entry = Inl (e, p', effs) \<Longrightarrow> same_setup p p'"
  by (auto simp: recordPolicyMetrics_def Let_def histogram_Observe_def counter_Inc_def gauge_Set_def
           same_setup_def
           split: sum.splits if_splits dest!: WithLabelValues_Inr)

lemma recordEnforceMetrics_setup:
  "recordEnforceMetrics p entry = Inr (p', effs) \<Longrightarrow> same_setup p p'"
  by (auto simp: recordEnforceMetrics_def Let_def histogram_Observe_def counter_Inc_def same_setup_def
           split: sum.splits dest!: WithLabelValues_Inr)

lemma recordPolicyMetrics_setup:
  "recordPolicyMetrics p entry = Inr (p', effs) \<Longrightarrow> same_setup p p'"
  by (auto simp: recordPolicyMetrics_def Let_def histogram_Observe_def counter_Inc_def gauge_Set_def
           same_setup_def
           split: sum.splits if_splits dest!: WithLabelValues_Inr)

lemma same_setup_refl: "same_setup p p"
  by (simp add: same_setup_def)

lemma OnAfterEvent_active:
  assumes "OnAfterEvent p entry now = Inr r" and "IsActive entry"
  shows "\<exists>effs.
     (if EventType entry = EventEnforce
      then recordEnforceMetrics p (entry\<lparr>EndTime := now, Duration := Sub now (StartTime entry)\<rparr>)
      else if EventType entry = EventAddPolicy \<or> EventType entry = EventRemovePolicy
              \<or> EventType entry = EventLoadPolicy \<or> EventType entry = EventSavePolicy
      then recordPolicyMetrics p (entry\<lparr>EndTime := now, Duration := Sub now (StartTime entry)\<rparr>)
      else Inr (p, [])) = Inr (res_logger r, effs)"
  using assms
  by (simp add: OnAfterEvent_def Let_def split: sum.splits option.splits prod.splits) auto

lemma OnAfterEvent_setup:
  assumes "OnAfterEvent p entry now = Inr r"
  shows "same_setup p (res_logger r)"
proof (cases "IsActive entry")
  case False
  with assms show ?thesis by (auto simp: OnAfterEvent_def same_setup_refl)
next
  case True
  from OnAfterEvent_active [OF assms True] obtain effs where
    d: "(if EventType entry = EventEnforce
      then recordEnforceMetrics p (entry\<lparr>EndTime := now, Duration := Sub now (StartTime entry)\<rparr>)
      else if EventType entry = EventAddPolicy \<or> EventType entry = EventRemovePolicy
              \<or> EventType entry = EventLoadPolicy \<or> EventType entry = EventSavePolicy
      then recordPolicyMetrics p (entry\<lparr>EndTime := now, Duration := Sub now (StartTime entry)\<rparr>)
      else Inr (p, [])) = Inr (res_logger r, effs)"
    by blast
  show ?thesis
  proof (cases "EventType entry = EventEnforce")
    case True
    with d show ?thesis by (simp add: recordEnforceMetrics_setup)
  next
    case False
    note ne = this
    show ?thesis
    proof (cases "EventType entry = EventAddPolicy \<or> EventType entry = EventRemovePolicy
              \<or> EventType entry = EventLoadPolicy \<or> EventType entry = EventSavePolicy")
      case True
      with d ne have "recordPolicyMetrics p (entry\<lparr>EndTime := now, Duration := Sub now (StartTime entry)\<rparr>)
          = Inr (res_logger r, effs)" by (simp split: if_splits)
      then show ?thesis by (rule recordPolicyMetrics_setup)
    next
      case False
      with d ne have "res_logger r = p" by simp
      then show ?thesis by (simp add: same_setup_refl)
    qed
  qed
qed

lemma OnAfterEvent_panicked:
  assumes "OnAfterEvent p entry now = Inl x"
  shows "IsActive entry \<and>
     pan_entry x = entry\<lparr>EndTime := now, Duration := Sub now (StartTime entry)\<rparr> \<and>
     (if EventType entry = EventEnforce
      then recordEnforceMetrics p (entry\<lparr>EndTime := now, Duration := Sub now (StartTime entry)\<rparr>)
      else if EventType entry = EventAddPolicy \<or> EventType entry = EventRemovePolicy
              \<or> EventType entry = EventLoadPolicy \<or> EventType entry = EventSavePolicy
      then recordPolicyMetrics p (entry\<lparr>EndTime := now, Duration := Sub now (StartTime entry)\<rparr>)
      else Inr (p, [])) = Inl (pan_value x, pan_logger x, pan_effects x)"
  using assms
  by (simp add: OnAfterEvent_def Let_def split: sum.splits option.splits prod.splits if_splits) auto

lemma OnAfterEvent_panic_setup:
  assumes "OnAfterEvent p entry now = Inl x"
  shows "same_setup p (pan_logger x)"
proof -
  note d = OnAfterEvent_panicked [OF assms]
  show ?thesis
  proof (cases "EventType entry = EventEnforce")
    case True
    with d show ?thesis by (auto dest: recordEnforceMetrics_panic_setup)
  next
    case False
    with d have "recordPolicyMetrics p (entry\<lparr>EndTime := now, Duration := Sub now (StartTime entry)\<rparr>)
          = Inl (pan_value x, pan_logger x, pan_effects x)" by (simp split: if_splits)
    then show ?thesis by (rule recordPolicyMetrics_panic_setup)
  qed
qed

lemma UpdatePolicyState_setup:
  "UpdatePolicyState p ptype n = Inr p' \<Longrightarrow> same_setup p p'"
  by (auto simp: UpdatePolicyState_def gauge_Set_def same_setup_def
           split: sum.splits dest!: WithLabelValues_Inr)

lemma schema_ok_setup: "same_setup p q \<Longrightarrow> schema_ok p \<Longrightarrow> schema_ok q"
  by (simp add: same_setup_def schema_ok_def)

lemma flags_true_setup: "same_setup p q \<Longrightarrow> flags_true p \<Longrightarrow> flags_true q"
  by (simp add: same_setup_def flags_true_def)

lemma New_logger:
  "NewPrometheusLoggerWithOptions registry options d = Inr (p, registry', d') \<Longrightarrow>
     p = newLogger (appendEnforceLabels
           (EnforceLabels (case options of None \<Rightarrow> \<lparr>EnforceLabels = []\<rparr> | Some opts \<Rightarrow> opts))
           [''allowed'', ''domain''])"
  by (auto simp: NewPrometheusLoggerWithOptions_def Let_def andThen_def
           split: option.splits sum.splits)

lemma newLogger_schema_ok: "schema_ok (newLogger labels)"
  by (simp add: schema_ok_def newLogger_def)

lemma newLogger_flags_true: "flags_true (newLogger labels)"
  by (simp add: flags_true_def newLogger_def)

lemma reachable_schema_ok: "reachable p \<Longrightarrow> schema_ok p"
proof (induction rule: reachable.induct)
  case (reach_new registry options defaultRegistry p registry' defaultRegistry')
  then show ?case by (auto dest!: New_logger simp: newLogger_schema_ok)
next
  case (reach_events p eventTypes)
  then show ?case by (simp add: SetEventTypes_def schema_ok_def)
next
  case (reach_callback p cb)
  then show ?case by (simp add: SetLogCallback_def schema_ok_def)
next
  case (reach_after p entry now r)
  then show ?case using OnAfterEvent_setup schema_ok_setup by blast
next
  case (reach_panic p entry now x)
  then show ?case using OnAfterEvent_panic_setup schema_ok_setup by blast
next
  case (reach_state p ptype n p')
  then show ?case using UpdatePolicyState_setup schema_ok_setup by blast
qed

lemma reachable_flags_true: "reachable p \<Longrightarrow> flags_true p"
proof (induction rule: reachable.induct)
  case (reach_new registry options defaultRegistry p registry' defaultRegistry')
  then show ?case by (auto dest!: New_logger simp: newLogger_flags_true)
next
  case (reach_events p eventTypes)
  then show ?case by (simp add: SetEventTypes_def flags_true_def storeEventTypes_apply)
next
  case (reach_callback p cb)
  then show ?case by (simp add: SetLogCallback_def flags_true_def)
next
  case (reach_after p entry now r)
  then show ?case using OnAfterEvent_setup flags_true_setup by blast
next
  case (reach_panic p entry now x)
  then show ?case using OnAfterEvent_panic_setup flags_true_setup by blast
next
  case (reach_state p ptype n p')
  then show ?case using UpdatePolicyState_setup flags_true_setup by blast
qed

lemma New_default:
  "\<exists>r'. NewPrometheusLoggerWithOptions (Some emptyRegistry) None emptyRegistry
          = Inr (defaultLogger, Some r', emptyRegistry)"
  by (simp add: NewPrometheusLoggerWithOptions_def Let_def andThen_def MustRegister_def
        Register_def newLogger_def defaultLogger_def emptyRegistry_def)

lemma reachable_defaultLogger: "reachable defaultLogger"
  using New_default reach_new by blast

text \<open>
  Claim C1. For a recorder built by the constructor and used through its methods, and for
  every entry, \<open>OnBeforeEvent\<close> admits the entry exactly when the set of enabled event
  types is empty or holds the entry's event type. An admitted entry gets \<open>IsActive = true\<close>
  and \<open>StartTime = now\<close>; a rejected one gets \<open>IsActive = false\<close> and keeps its
  \<open>StartTime\<close>. The call returns nil in both cases. The enabled set is the set of the
  elements last given to \<open>SetEventTypes\<close>.
\<close>

theorem OnBeforeEvent_filter:
  assumes "reachable p"
  shows "OnBeforeEvent p entry now =
           (if enabledSet p = {} \<or> EventType entry \<in> enabledSet p
            then (entry\<lparr>IsActive := True, StartTime := now\<rparr>, None)
            else (entry\<lparr>IsActive := False\<rparr>, None))
         \<and> enabledSet (fst (SetEventTypes p eventTypes)) = set eventTypes"
proof -
  have ft: "flags_true p" using assms by (rule reachable_flags_true)
  have dom_eq: "dom (enabledEventTypes p) = enabledSet p"
    using ft by (auto simp: flags_true_def enabledSet_def) (metis (full_types))
  have look: "lookupFlag (enabledEventTypes p) k \<longleftrightarrow> k \<in> enabledSet p" for k
    by (auto simp: lookupFlag_def enabledSet_def split: option.splits)
  have "enabledSet (fst (SetEventTypes p eventTypes)) = set eventTypes"
    by (auto simp: enabledSet_def SetEventTypes_def storeEventTypes_apply)
  then show ?thesis
    by (auto simp: OnBeforeEvent_def dom_eq look)
qed

theorem OnBeforeEvent_filter_witness:
  "OnBeforeEvent (fst (SetEventTypes defaultLogger [EventEnforce])) sampleEntry 7
     = (sampleEntry\<lparr>IsActive := True, StartTime := 7\<rparr>, None)
   \<and> OnBeforeEvent (fst (SetEventTypes defaultLogger [EventEnforce]))
        (sampleEntry\<lparr>EventType := EventAddPolicy\<rparr>) 7
     = (sampleEntry\<lparr>EventType := EventAddPolicy, IsActive := False\<rparr>, None)
   \<and> OnBeforeEvent defaultLogger (sampleEntry\<lparr>EventType := EventAddPolicy\<rparr>) 7
     = (sampleEntry\<lparr>EventType := EventAddPolicy, IsActive := True, StartTime := 7\<rparr>, None)"
proof -
  have r0: "reachable defaultLogger" by (rule reachable_defaultLogger)
  have r1: "reachable (fst (SetEventTypes defaultLogger [EventEnforce]))"
    using r0 by (rule reach_events)
  have s1: "enabledSet (fst (SetEventTypes defaultLogger [EventEnforce])) = {EventEnforce}"
    using OnBeforeEvent_filter [OF r0, of sampleEntry 7 "[EventEnforce]"] by simp
  have s0: "enabledSet defaultLogger = {}"
    by (simp add: enabledSet_def defaultLogger_def newLogger_def)
  have ne: "EventAddPolicy \<noteq> EventEnforce"
    by (simp add: EventEnforce_def EventAddPolicy_def)
  have t: "EventType sampleEntry = EventEnforce"
    by (simp add: sampleEntry_def)
  have a: "OnBeforeEvent (fst (SetEventTypes defaultLogger [EventEnforce])) sampleEntry 7
     = (sampleEntry\<lparr>IsActive := True, StartTime := 7\<rparr>, None)"
    using OnBeforeEvent_filter [OF r1, of sampleEntry 7 "[]"] by (simp add: s1 t)
  have b: "OnBeforeEvent (fst (SetEventTypes defaultLogger [EventEnforce]))
        (sampleEntry\<lparr>EventType := EventAddPolicy\<rparr>) 7
     = (sampleEntry\<lparr>EventType := EventAddPolicy, IsActive := False\<rparr>, None)"
    using OnBeforeEvent_filter [OF r1, of "sampleEntry\<lparr>EventType := EventAddPolicy\<rparr>" 7 "[]"]
    by (simp add: s1 ne)
  have c: "OnBeforeEvent defaultLogger (sampleEntry\<lparr>EventType := EventAddPolicy\<rparr>) 7
     = (sampleEntry\<lparr>EventType := EventAddPolicy, IsActive := True, StartTime := 7\<rparr>, None)"
    using OnBeforeEvent_filter [OF r0, of "sampleEntry\<lparr>EventType := EventAddPolicy\<rparr>" 7 "[]"]
    by (simp add: s0)
  from a b c show ?thesis by blast
qed

text \<open>
  Claim C2. For an entry with \<open>IsActive = false\<close>, whatever its other fields are,
  \<open>OnAfterEvent\<close> leaves the recorder (all six families) and the entry as they are, does
  nothing to the outside (no metric update, no callback invocation) and returns nil.
\<close>

theorem inactive_inert:
  "\<not> IsActive entry \<Longrightarrow>
     OnAfterEvent p entry now
       = Inr \<lparr>res_logger = p, res_entry = entry, res_err = None, res_effects = []\<rparr>"
  by (simp add: OnAfterEvent_def)

theorem inactive_inert_witness:
  "\<not> IsActive sampleEntry \<and>
   OnAfterEvent (fst (SetLogCallback defaultLogger (Some (\<lambda>e. Some ''callback error'')))) sampleEntry 7
     = Inr \<lparr>res_logger = fst (SetLogCallback defaultLogger (Some (\<lambda>e. Some ''callback error''))),
            res_entry = sampleEntry, res_err = None, res_effects = []\<rparr>"
proof -
  have a: "\<not> IsActive sampleEntry" by (simp add: sampleEntry_def)
  show ?thesis using a inactive_inert [OF a] by simp
qed

section \<open>The label projector and the label set\<close>

lemma storeLabelValue_next:
  "storeLabelValue (if Allowed entry then ''true'' else ''false'')
       (if Domain' entry = [] then ''default'' else Domain' entry) entry
       (length pre) label (pre @ replicate (Suc n) [])
     = (pre @ [resolveLabel entry label]) @ replicate n []"
  by (simp add: storeLabelValue_def resolveLabel_def)

lemma fillLabelValues_map:
  "fillLabelValues (if Allowed entry then ''true'' else ''false'')
       (if Domain' entry = [] then ''default'' else Domain' entry) entry
       labels (length pre) (pre @ replicate (length labels) [])
     = pre @ map (resolveLabel entry) labels"
proof (induction labels arbitrary: pre)
  case Nil
  show ?case by simp
next
  case (Cons label rest)
  have "fillLabelValues (if Allowed entry then ''true'' else ''false'')
       (if Domain' entry = [] then ''default'' else Domain' entry) entry
       (label # rest) (length pre) (pre @ replicate (length (label # rest)) [])
     = fillLabelValues (if Allowed entry then ''true'' else ''false'')
       (if Domain' entry = [] then ''default'' else Domain' entry) entry
       rest (length (pre @ [resolveLabel entry label]))
       ((pre @ [resolveLabel entry label]) @ replicate (length rest) [])"
    using storeLabelValue_next [of entry pre label "length rest"] by simp
  also have "\<dots> = (pre @ [resolveLabel entry label]) @ map (resolveLabel entry) rest"
    by (rule Cons.IH)
  finally show ?case by simp
qed

lemma projectLabels_map: "projectLabels labels entry = map (resolveLabel entry) labels"
  using fillLabelValues_map [of entry labels "[]"] by (simp add: projectLabels_def Let_def)

text \<open>
  Claim C4. For every entry and every list of label names, the projector yields one value
  per name, in the order of the names: position \<open>i\<close> holds the value of name \<open>i\<close>, which
  is \<open>true\<close> or \<open>false\<close> for \<open>allowed\<close>, the domain with the empty string rewritten to
  \<open>default\<close> for \<open>domain\<close>, and the field as it is (the empty string included) for
  \<open>subject\<close>, \<open>object\<close> and \<open>action\<close>. Two entries whose resolved values agree
  project to the same vector.
\<close>

theorem projectLabels_resolves:
  "length (projectLabels labels entry) = length labels \<and>
   (\<forall>i < length labels. projectLabels labels entry ! i = resolveLabel entry (labels ! i)) \<and>
   (Allowed e1 = Allowed e2 \<and>
    (if Domain' e1 = [] then ''default'' else Domain' e1) = (if Domain' e2 = [] then ''default'' else Domain' e2) \<and>
    Subject e1 = Subject e2 \<and> Object e1 = Object e2 \<and> Action e1 = Action e2
      \<longrightarrow> projectLabels labels e1 = projectLabels labels e2)"
proof -
  have "resolveLabel e1 = resolveLabel e2"
    if "Allowed e1 = Allowed e2"
      "(if Domain' e1 = [] then ''default'' else Domain' e1) = (if Domain' e2 = [] then ''default'' else Domain' e2)"
      "Subject e1 = Subject e2" "Object e1 = Object e2" "Action e1 = Action e2"
    using that by (intro ext) (simp add: resolveLabel_def)
  then show ?thesis by (auto simp: projectLabels_map)
qed

theorem projectLabels_resolves_witness:
  "projectLabels [''allowed'', ''domain'', ''subject'', ''object'', ''action'']
      (sampleEntry\<lparr>Domain' := [], Action := []\<rparr>)
     = [''true'', ''default'', ''alice'', ''data1'', []]
   \<and> projectLabels [''allowed'', ''domain''] (sampleEntry\<lparr>Domain' := []\<rparr>)
     = projectLabels [''allowed'', ''domain''] (sampleEntry\<lparr>Domain' := ''default'', RuleCount := 3\<rparr>)"
proof -
  let ?ls = "[''allowed'', ''domain'', ''subject'', ''object'', ''action'']"
  let ?e = "sampleEntry\<lparr>Domain' := [], Action := []\<rparr>"
  note t = projectLabels_resolves [of ?ls ?e sampleEntry sampleEntry]
  have len: "length (projectLabels ?ls ?e) = 5" using t by simp
  have nth: "projectLabels ?ls ?e ! i = resolveLabel ?e (?ls ! i)" if "i < 5" for i
    using t that by simp
  have "projectLabels ?ls ?e = [''true'', ''default'', ''alice'', ''data1'', []]"
  proof (rule nth_equalityI)
    show "length (projectLabels ?ls ?e) = length [''true'', ''default'', ''alice'', ''data1'', []]"
      using len by simp
    fix i assume "i < length (projectLabels ?ls ?e)"
    then have "i < 5" using len by simp
    then have "i = 0 \<or> i = 1 \<or> i = 2 \<or> i = 3 \<or> i = 4" by arith
    then show "projectLabels ?ls ?e ! i = [''true'', ''default'', ''alice'', ''data1'', []] ! i"
      using nth [of i] by (auto simp: resolveLabel_def sampleEntry_def)
  qed
  moreover have "projectLabels [''allowed'', ''domain''] (sampleEntry\<lparr>Domain' := []\<rparr>)
     = projectLabels [''allowed'', ''domain''] (sampleEntry\<lparr>Domain' := ''default'', RuleCount := 3\<rparr>)"
    using projectLabels_resolves [of "[''allowed'', ''domain'']" sampleEntry
        "sampleEntry\<lparr>Domain' := []\<rparr>" "sampleEntry\<lparr>Domain' := ''default'', RuleCount := 3\<rparr>"]
    by simp
  ultimately show ?thesis by blast
qed

lemma appendEnforceLabels_filter:
  "appendEnforceLabels supplied labels
     = labels @ filter (\<lambda>l. l = ''subject'' \<or> l = ''object'' \<or> l = ''action'') supplied"
  by (induction supplied arbitrary: labels) simp_all

text \<open>
  Claim C5. For every list of names supplied in the options, the resolved label list is
  \<open>allowed\<close>, \<open>domain\<close>, then the supplied names among \<open>subject\<close>, \<open>object\<close> and
  \<open>action\<close> in the order supplied. It is the list of the constructed recorder and of
  both enforcement families. Names outside the three change nothing: the constructor
  behaves as if they had not been supplied. Absent options are an empty list of names.
\<close>

theorem enforce_labels_resolved:
  "appendEnforceLabels supplied [''allowed'', ''domain'']
     = ''allowed'' # ''domain'' # filter (\<lambda>l. l = ''subject'' \<or> l = ''object'' \<or> l = ''action'') supplied
   \<and> (NewPrometheusLoggerWithOptions registry (Some \<lparr>EnforceLabels = supplied\<rparr>) d = Inr (p, registry', d')
        \<longrightarrow> enforceLabels p
             = ''allowed'' # ''domain'' # filter (\<lambda>l. l = ''subject'' \<or> l = ''object'' \<or> l = ''action'') supplied
           \<and> variableLabels (enforceTotal p) = enforceLabels p
           \<and> variableLabels (enforceDuration p) = enforceLabels p)
   \<and> NewPrometheusLoggerWithOptions registry (Some \<lparr>EnforceLabels = supplied\<rparr>) d
     = NewPrometheusLoggerWithOptions registry
         (Some \<lparr>EnforceLabels = filter (\<lambda>l. l = ''subject'' \<or> l = ''object'' \<or> l = ''action'') supplied\<rparr>) d
   \<and> NewPrometheusLoggerWithOptions registry None d
     = NewPrometheusLoggerWithOptions registry (Some \<lparr>EnforceLabels = []\<rparr>) d"
proof -
  have a: "appendEnforceLabels supplied [''allowed'', ''domain'']
     = ''allowed'' # ''domain'' # filter (\<lambda>l. l = ''subject'' \<or> l = ''object'' \<or> l = ''action'') supplied"
    by (simp add: appendEnforceLabels_filter)
  have b: "enforceLabels p = appendEnforceLabels supplied [''allowed'', ''domain'']
      \<and> variableLabels (enforceTotal p) = enforceLabels p
      \<and> variableLabels (enforceDuration p) = enforceLabels p"
    if "NewPrometheusLoggerWithOptions registry (Some \<lparr>EnforceLabels = supplied\<rparr>) d = Inr (p, registry', d')"
    using New_logger [OF that] by (simp add: newLogger_def)
  have c: "appendEnforceLabels (filter (\<lambda>l. l = ''subject'' \<or> l = ''object'' \<or> l = ''action'') supplied)
             [''allowed'', ''domain'']
           = appendEnforceLabels supplied [''allowed'', ''domain'']"
    by (simp add: appendEnforceLabels_filter)
  have "NewPrometheusLoggerWithOptions registry (Some \<lparr>EnforceLabels = supplied\<rparr>) d
     = NewPrometheusLoggerWithOptions registry
         (Some \<lparr>EnforceLabels = filter (\<lambda>l. l = ''subject'' \<or> l = ''object'' \<or> l = ''action'') supplied\<rparr>) d"
    by (simp add: NewPrometheusLoggerWithOptions_def c)
  moreover have "NewPrometheusLoggerWithOptions registry None d
     = NewPrometheusLoggerWithOptions registry (Some \<lparr>EnforceLabels = []\<rparr>) d"
    by (simp add: NewPrometheusLoggerWithOptions_def)
  ultimately show ?thesis using a b by simp
qed

lemma New_bogus:
  "\<exists>r'. NewPrometheusLoggerWithOptions (Some emptyRegistry)
           (Some \<lparr>EnforceLabels = [''subject'', ''bogus'', ''object'']\<rparr>) emptyRegistry
         = Inr (newLogger [''allowed'', ''domain'', ''subject'', ''object''], Some r', emptyRegistry)"
  by (simp add: NewPrometheusLoggerWithOptions_def Let_def andThen_def MustRegister_def
        Register_def newLogger_def emptyRegistry_def)

theorem enforce_labels_resolved_witness:
  "appendEnforceLabels [''subject'', ''bogus'', ''object''] [''allowed'', ''domain'']
     = [''allowed'', ''domain'', ''subject'', ''object'']
   \<and> map_sum id fst (NewPrometheusLoggerWithOptions (Some emptyRegistry)
           (Some \<lparr>EnforceLabels = [''subject'', ''bogus'', ''object'']\<rparr>) emptyRegistry)
     = Inr (newLogger [''allowed'', ''domain'', ''subject'', ''object''])
   \<and> enforceLabels (newLogger [''allowed'', ''domain'', ''subject'', ''object''])
     = [''allowed'', ''domain'', ''subject'', ''object'']"
proof -
  obtain r' where n: "NewPrometheusLoggerWithOptions (Some emptyRegistry)
           (Some \<lparr>EnforceLabels = [''subject'', ''bogus'', ''object'']\<rparr>) emptyRegistry
         = Inr (newLogger [''allowed'', ''domain'', ''subject'', ''object''], Some r', emptyRegistry)"
    using New_bogus by blast
  note t = enforce_labels_resolved [of "[''subject'', ''bogus'', ''object'']" "Some emptyRegistry" emptyRegistry
      "newLogger [''allowed'', ''domain'', ''subject'', ''object'']" "Some r'" emptyRegistry]
  have a: "appendEnforceLabels [''subject'', ''bogus'', ''object''] [''allowed'', ''domain'']
     = [''allowed'', ''domain'', ''subject'', ''object'']"
    using t by simp
  have b: "enforceLabels (newLogger [''allowed'', ''domain'', ''subject'', ''object''])
     = [''allowed'', ''domain'', ''subject'', ''object'']"
    using t n by simp
  show ?thesis using a b n by simp
qed

section \<open>What the after-hook records\<close>

lemma kinds_distinct:
  "distinct [EventEnforce, EventAddPolicy, EventRemovePolicy, EventLoadPolicy, EventSavePolicy]"
  by (simp add: EventEnforce_def EventAddPolicy_def EventRemovePolicy_def EventLoadPolicy_def
        EventSavePolicy_def)

lemma valid_kinds:
  "ValidString EventEnforce" "ValidString EventAddPolicy" "ValidString EventRemovePolicy"
  "ValidString EventLoadPolicy" "ValidString EventSavePolicy"
  by (simp_all add: ValidString_def utf8_start_def EventEnforce_def EventAddPolicy_def
        EventRemovePolicy_def EventLoadPolicy_def EventSavePolicy_def)

lemma valid_flags: "ValidString ''true''" "ValidString ''false''"
  by (simp_all add: ValidString_def utf8_start_def)

lemma projectLabels_stamp:
  "projectLabels labels (entry\<lparr>EndTime := t, Duration := d\<rparr>) = projectLabels labels entry"
proof -
  have "resolveLabel (entry\<lparr>EndTime := t, Duration := d\<rparr>) = resolveLabel entry"
    by (intro ext) (simp add: resolveLabel_def)
  then show ?thesis by (simp add: projectLabels_map)
qed

lemma projectLabels_length: "length (projectLabels labels entry) = length labels"
  by (simp add: projectLabels_map)

lemma recordEnforceMetrics_ok:
  assumes "schema_ok p" and "list_all ValidString (projectLabels (enforceLabels p) entry)"
  shows "recordEnforceMetrics p entry =
     Inr (p\<lparr>enforceDuration := (enforceDuration p)
              \<lparr>series := (series (enforceDuration p))
                 (projectLabels (enforceLabels p) entry \<mapsto>
                    child [] (enforceDuration p) (projectLabels (enforceLabels p) entry)
                      @ [Seconds (Duration entry)])\<rparr>,
            enforceTotal := (enforceTotal p)
              \<lparr>series := (series (enforceTotal p))
                 (projectLabels (enforceLabels p) entry \<mapsto>
                    child 0 (enforceTotal p) (projectLabels (enforceLabels p) entry) + 1)\<rparr>\<rparr>,
          [EObserve (fqName (enforceDuration p)) (projectLabels (enforceLabels p) entry)
             (Seconds (Duration entry)),
           EInc (fqName (enforceTotal p)) (projectLabels (enforceLabels p) entry)])"
  using assms
  by (simp add: recordEnforceMetrics_def Let_def histogram_Observe_def counter_Inc_def
        WithLabelValues_ok projectLabels_length schema_ok_def)

lemma recordPolicyMetrics_ok:
  assumes "schema_ok p" and "ValidString (EventType entry)"
  shows "recordPolicyMetrics p entry =
     Inr (p\<lparr>policyOpsTotal := (policyOpsTotal p)
              \<lparr>series := (series (policyOpsTotal p))
                 ([EventType entry, if Error entry = None then ''true'' else ''false''] \<mapsto>
                    child 0 (policyOpsTotal p)
                      [EventType entry, if Error entry = None then ''true'' else ''false''] + 1)\<rparr>,
            policyOpsDuration := (policyOpsDuration p)
              \<lparr>series := (series (policyOpsDuration p))
                 ([EventType entry] \<mapsto>
                    child [] (policyOpsDuration p) [EventType entry] @ [Seconds (Duration entry)])\<rparr>,
            policyRulesCount :=
              (if RuleCount entry > 0
               then (policyRulesCount p)
                 \<lparr>series := (series (policyRulesCount p))
                    ([EventType entry] \<mapsto> real_of_int (RuleCount entry))\<rparr>
               else policyRulesCount p)\<rparr>,
          [EInc (fqName (policyOpsTotal p))
             [EventType entry, if Error entry = None then ''true'' else ''false''],
           EObserve (fqName (policyOpsDuration p)) [EventType entry] (Seconds (Duration entry))]
          @ (if RuleCount entry > 0
             then [ESet (fqName (policyRulesCount p)) [EventType entry] (real_of_int (RuleCount entry))]
             else []))"
  using assms
  by (simp add: recordPolicyMetrics_def Let_def histogram_Observe_def counter_Inc_def gauge_Set_def
        WithLabelValues_ok valid_flags schema_ok_def)

lemma recordEnforceMetrics_invalid:
  assumes "schema_ok p"
    and "find (\<lambda>val. \<not> ValidString val) (projectLabels (enforceLabels p) entry) = Some val"
  shows "recordEnforceMetrics p entry = Inl (InvalidLabelValue val, p, [])"
  using assms
  by (simp add: recordEnforceMetrics_def Let_def histogram_Observe_def WithLabelValues_def
        projectLabels_length schema_ok_def)

lemma recordEnforceMetrics_Inr_valid:
  "recordEnforceMetrics p entry = Inr x \<Longrightarrow> list_all ValidString (projectLabels (enforceLabels p) entry)"
  by (auto simp: recordEnforceMetrics_def Let_def histogram_Observe_def
           split: sum.splits dest!: WithLabelValues_Inr)

lemma recordPolicyMetrics_Inr_valid:
  "recordPolicyMetrics p entry = Inr x \<Longrightarrow> ValidString (EventType entry)"
  by (auto simp: recordPolicyMetrics_def Let_def counter_Inc_def
           split: sum.splits dest!: WithLabelValues_Inr)

lemma recordEnforceMetrics_Inl:
  assumes "schema_ok p" and "recordEnforceMetrics p entry = Inl (e, p', effs)"
  shows "p' = p \<and> effs = []"
proof (cases "find (\<lambda>val. \<not> ValidString val) (projectLabels (enforceLabels p) entry)")
  case None
  then have "list_all ValidString (projectLabels (enforceLabels p) entry)"
    by (simp add: find_invalid_None)
  from recordEnforceMetrics_ok [OF assms(1) this] assms(2) show ?thesis by simp
next
  case (Some val)
  from recordEnforceMetrics_invalid [OF assms(1) Some] assms(2) show ?thesis by simp
qed

lemma recordPolicyMetrics_Inl:
  assumes "recordPolicyMetrics p entry = Inl (e, p', effs)"
  shows "enforceTotal p' = enforceTotal p \<and> enforceDuration p' = enforceDuration p"
  using assms
  by (auto simp: recordPolicyMetrics_def Let_def split: sum.splits if_splits)

lemma OnAfterEvent_cases:
  assumes "OnAfterEvent p entry now = Inr r"
  obtains (same) "res_logger r = p"
  | (enforce) e effs where "recordEnforceMetrics p e = Inr (res_logger r, effs)"
  | (policy) e effs where "recordPolicyMetrics p e = Inr (res_logger r, effs)"
proof (cases "IsActive entry")
  case False
  with assms have "res_logger r = p" by (auto simp: OnAfterEvent_def)
  then show ?thesis by (rule same)
next
  case True
  from OnAfterEvent_active [OF assms True] obtain effs where
    d: "(if EventType entry = EventEnforce
      then recordEnforceMetrics p (entry\<lparr>EndTime := now, Duration := Sub now (StartTime entry)\<rparr>)
      else if EventType entry = EventAddPolicy \<or> EventType entry = EventRemovePolicy
              \<or> EventType entry = EventLoadPolicy \<or> EventType entry = EventSavePolicy
      then recordPolicyMetrics p (entry\<lparr>EndTime := now, Duration := Sub now (StartTime entry)\<rparr>)
      else Inr (p, [])) = Inr (res_logger r, effs)"
    by blast
  show ?thesis
  proof (cases "EventType entry = EventEnforce")
    case True
    with d show ?thesis using enforce by simp
  next
    case False
    note ne = this
    show ?thesis
    proof (cases "EventType entry = EventAddPolicy \<or> EventType entry = EventRemovePolicy
              \<or> EventType entry = EventLoadPolicy \<or> EventType entry = EventSavePolicy")
      case True
      with d ne have "recordPolicyMetrics p (entry\<lparr>EndTime := now, Duration := Sub now (StartTime entry)\<rparr>)
          = Inr (res_logger r, effs)" by (simp split: if_splits)
      then show ?thesis by (rule policy)
    next
      case False
      with d ne have "res_logger r = p" by simp
      then show ?thesis by (rule same)
    qed
  qed
qed

lemma OnAfterEvent_aligned:
  assumes "schema_ok p" and "OnAfterEvent p entry now = Inr r"
    and "dom (series (enforceTotal p)) = dom (series (enforceDuration p))"
  shows "dom (series (enforceTotal (res_logger r))) = dom (series (enforceDuration (res_logger r)))"
  using assms(2)
proof (cases rule: OnAfterEvent_cases)
  case same
  then show ?thesis using assms(3) by simp
next
  case (enforce e effs)
  then have v: "list_all ValidString (projectLabels (enforceLabels p) e)"
    by (rule recordEnforceMetrics_Inr_valid)
  from enforce have "res_logger r = fst (projr (recordEnforceMetrics p e))" by simp
  then have "dom (series (enforceTotal (res_logger r)))
        = insert (projectLabels (enforceLabels p) e) (dom (series (enforceTotal p)))"
      and "dom (series (enforceDuration (res_logger r)))
        = insert (projectLabels (enforceLabels p) e) (dom (series (enforceDuration p)))"
    by (simp_all add: recordEnforceMetrics_ok [OF assms(1) v])
  then show ?thesis using assms(3) by simp
next
  case (policy e effs)
  then have v: "ValidString (EventType e)" by (rule recordPolicyMetrics_Inr_valid)
  from policy have "res_logger r = fst (projr (recordPolicyMetrics p e))" by simp
  then have "enforceTotal (res_logger r) = enforceTotal p"
      and "enforceDuration (res_logger r) = enforceDuration p"
    by (simp_all add: recordPolicyMetrics_ok [OF assms(1) v])
  then show ?thesis using assms(3) by simp
qed

lemma OnAfterEvent_panic_families:
  assumes "schema_ok p" and "OnAfterEvent p entry now = Inl x"
  shows "enforceTotal (pan_logger x) = enforceTotal p \<and> enforceDuration (pan_logger x) = enforceDuration p"
proof -
  note d = OnAfterEvent_panicked [OF assms(2)]
  show ?thesis
  proof (cases "EventType entry = EventEnforce")
    case True
    with d show ?thesis by (auto dest: recordEnforceMetrics_Inl [OF assms(1)])
  next
    case False
    with d have "recordPolicyMetrics p (entry\<lparr>EndTime := now, Duration := Sub now (StartTime entry)\<rparr>)
          = Inl (pan_value x, pan_logger x, pan_effects x)" by (simp split: if_splits)
    then show ?thesis by (rule recordPolicyMetrics_Inl)
  qed
qed

lemma reachable_aligned:
  "reachable p \<Longrightarrow> dom (series (enforceTotal p)) = dom (series (enforceDuration p))"
proof (induction rule: reachable.induct)
  case (reach_new registry options defaultRegistry p registry' defaultRegistry')
  then show ?case by (auto dest!: New_logger simp: newLogger_def)
next
  case (reach_events p eventTypes)
  then show ?case by (simp add: SetEventTypes_def)
next
  case (reach_callback p cb)
  then show ?case by (simp add: SetLogCallback_def)
next
  case (reach_after p entry now r)
  then show ?case using OnAfterEvent_aligned reachable_schema_ok by blast
next
  case (reach_panic p entry now x)
  then show ?case using OnAfterEvent_panic_families reachable_schema_ok by metis
next
  case (reach_state p ptype n p')
  then have "enforceTotal p' = enforceTotal p" and "enforceDuration p' = enforceDuration p"
    by (auto simp: UpdatePolicyState_def gauge_Set_def split: sum.splits)
  with reach_state.IH show ?case by simp
qed

lemma OnAfterEvent_enforce_invalid:
  assumes "schema_ok p" and "IsActive entry" and "EventType entry = EventEnforce"
    and "find (\<lambda>val. \<not> ValidString val) (projectLabels (enforceLabels p) entry) = Some val"
  shows "OnAfterEvent p entry now =
     Inl \<lparr>pan_value = InvalidLabelValue val, pan_logger = p,
          pan_entry = entry\<lparr>EndTime := now, Duration := Sub now (StartTime entry)\<rparr>,
          pan_effects = []\<rparr>"
proof -
  have "recordEnforceMetrics p (entry\<lparr>EndTime := now, Duration := Sub now (StartTime entry)\<rparr>)
      = Inl (InvalidLabelValue val, p, [])"
    using assms(4) by (intro recordEnforceMetrics_invalid [OF assms(1)]) (simp add: projectLabels_stamp)
  then show ?thesis using assms(2,3) by (simp add: OnAfterEvent_def Let_def)
qed

text \<open>
  Claim C3, as amended. For a recorder built by the constructor and used through its
  methods, and an active entry of type \<open>Enforce\<close>: when every projected label value is
  valid UTF-8, \<open>OnAfterEvent\<close> returns normally; the enforcement counter is one higher at
  the projected label vector and unchanged elsewhere; the enforcement histogram has one
  more observation, \<open>Duration\<close> in seconds, at the same vector and is unchanged
  elsewhere; these two updates are all it does to the metrics, and the four other families
  stay as they are. When a projected label value is not valid UTF-8, the metric backend
  panics on the first such value and the recorder is left as it was, with nothing
  recorded. In both cases the two families have the recorder's label list as their label
  names, the projected vector has one value per name, and the two families hold children
  for the same label vectors.
\<close>

theorem enforce_recorded:
  assumes "reachable p" and "IsActive entry" and "EventType entry = EventEnforce"
  shows "(let lvs = projectLabels (enforceLabels p) entry;
              secs = Seconds (Sub now (StartTime entry))
          in (list_all ValidString lvs \<longrightarrow>
               (\<exists>r. OnAfterEvent p entry now = Inr r \<and>
                 res_entry r = entry\<lparr>EndTime := now, Duration := Sub now (StartTime entry)\<rparr> \<and>
                 series (enforceTotal (res_logger r))
                   = (series (enforceTotal p))(lvs \<mapsto> child 0 (enforceTotal p) lvs + 1) \<and>
                 series (enforceDuration (res_logger r))
                   = (series (enforceDuration p))(lvs \<mapsto> child [] (enforceDuration p) lvs @ [secs]) \<and>
                 filter (\<lambda>e. \<not> is_callback e) (res_effects r)
                   = [EObserve (fqName (enforceDuration p)) lvs secs, EInc (fqName (enforceTotal p)) lvs] \<and>
                 variableLabels (enforceTotal (res_logger r)) = enforceLabels (res_logger r) \<and>
                 variableLabels (enforceDuration (res_logger r)) = enforceLabels (res_logger r) \<and>
                 policyOpsTotal (res_logger r) = policyOpsTotal p \<and>
                 policyOpsDuration (res_logger r) = policyOpsDuration p \<and>
                 policyRulesCount (res_logger r) = policyRulesCount p \<and>
                 policyStateCount (res_logger r) = policyStateCount p)) \<and>
             (\<forall>val. find (\<lambda>v. \<not> ValidString v) lvs = Some val \<longrightarrow>
                 OnAfterEvent p entry now =
                   Inl \<lparr>pan_value = InvalidLabelValue val, pan_logger = p,
                        pan_entry = entry\<lparr>EndTime := now, Duration := Sub now (StartTime entry)\<rparr>,
                        pan_effects = []\<rparr>) \<and>
             (list_all ValidString lvs \<or> (\<exists>val. find (\<lambda>v. \<not> ValidString v) lvs = Some val)) \<and>
             length lvs = length (enforceLabels p) \<and>
             variableLabels (enforceTotal p) = enforceLabels p \<and>
             variableLabels (enforceDuration p) = enforceLabels p \<and>
             dom (series (enforceTotal p)) = dom (series (enforceDuration p)))"
proof -
  have ok: "schema_ok p" using assms(1) by (rule reachable_schema_ok)
  have labs: "variableLabels (enforceTotal p) = enforceLabels p"
    "variableLabels (enforceDuration p) = enforceLabels p"
    "dom (series (enforceTotal p)) = dom (series (enforceDuration p))"
    using ok reachable_aligned [OF assms(1)] by (simp_all add: schema_ok_def)
  let ?lvs = "projectLabels (enforceLabels p) entry"
  have good: "\<exists>r. OnAfterEvent p entry now = Inr r \<and>
                 res_entry r = entry\<lparr>EndTime := now, Duration := Sub now (StartTime entry)\<rparr> \<and>
                 series (enforceTotal (res_logger r))
                   = (series (enforceTotal p))(?lvs \<mapsto> child 0 (enforceTotal p) ?lvs + 1) \<and>
                 series (enforceDuration (res_logger r))
                   = (series (enforceDuration p))
                       (?lvs \<mapsto> child [] (enforceDuration p) ?lvs @ [Seconds (Sub now (StartTime entry))]) \<and>
                 filter (\<lambda>e. \<not> is_callback e) (res_effects r)
                   = [EObserve (fqName (enforceDuration p)) ?lvs (Seconds (Sub now (StartTime entry))),
                      EInc (fqName (enforceTotal p)) ?lvs] \<and>
                 variableLabels (enforceTotal (res_logger r)) = enforceLabels (res_logger r) \<and>
                 variableLabels (enforceDuration (res_logger r)) = enforceLabels (res_logger r) \<and>
                 policyOpsTotal (res_logger r) = policyOpsTotal p \<and>
                 policyOpsDuration (res_logger r) = policyOpsDuration p \<and>
                 policyRulesCount (res_logger r) = policyRulesCount p \<and>
                 policyStateCount (res_logger r) = policyStateCount p"
    if v: "list_all ValidString ?lvs"
  proof -
    have v': "list_all ValidString (projectLabels (enforceLabels p)
        (entry\<lparr>EndTime := now, Duration := Sub now (StartTime entry)\<rparr>))"
      using v by (simp add: projectLabels_stamp)
    show ?thesis
    proof (cases "callback p")
      case None
      then show ?thesis
        using assms(2,3) labs
        by (simp add: OnAfterEvent_def Let_def recordEnforceMetrics_ok [OF ok v'] projectLabels_stamp)
    next
      case (Some cb)
      then show ?thesis
        using assms(2,3) labs
        by (simp add: OnAfterEvent_def Let_def recordEnforceMetrics_ok [OF ok v'] projectLabels_stamp)
    qed
  qed
  have bad: "OnAfterEvent p entry now =
                   Inl \<lparr>pan_value = InvalidLabelValue val, pan_logger = p,
                        pan_entry = entry\<lparr>EndTime := now, Duration := Sub now (StartTime entry)\<rparr>,
                        pan_effects = []\<rparr>"
    if "find (\<lambda>v. \<not> ValidString v) ?lvs = Some val" for val
    using ok assms(2,3) that by (rule OnAfterEvent_enforce_invalid)
  have either: "list_all ValidString ?lvs \<or> (\<exists>val. find (\<lambda>v. \<not> ValidString v) ?lvs = Some val)"
    by (cases "find (\<lambda>v. \<not> ValidString v) ?lvs") (simp_all add: find_invalid_None)
  show ?thesis
    unfolding Let_def using good bad either labs by (simp add: projectLabels_length)
qed

text \<open>
  Claim C6. For a recorder built by the constructor and used through its methods, and an
  active entry of type \<open>AddPolicy\<close>, \<open>RemovePolicy\<close>, \<open>LoadPolicy\<close> or \<open>SavePolicy\<close>,
  with or without a failure value, \<open>OnAfterEvent\<close> returns normally; the policy-operation
  counter is one higher at (event type as a string, \<open>false\<close> if a failure is present and
  \<open>true\<close> if not); the policy-operation histogram has one more observation, \<open>Duration\<close>
  in seconds, at (event type); the rule-count gauge at (event type) is set to
  \<open>RuleCount\<close> when \<open>RuleCount > 0\<close> and the gauge is untouched otherwise. Nothing else
  is done to the metrics.
\<close>

theorem policy_recorded:
  assumes "reachable p" and "IsActive entry"
    and "EventType entry = EventAddPolicy \<or> EventType entry = EventRemovePolicy
         \<or> EventType entry = EventLoadPolicy \<or> EventType entry = EventSavePolicy"
  shows "(let operation = EventType entry;
              success = (if Error entry = None then ''true'' else ''false'');
              secs = Seconds (Sub now (StartTime entry))
          in \<exists>r. OnAfterEvent p entry now = Inr r \<and>
               res_entry r = entry\<lparr>EndTime := now, Duration := Sub now (StartTime entry)\<rparr> \<and>
               series (policyOpsTotal (res_logger r))
                 = (series (policyOpsTotal p))
                     ([operation, success] \<mapsto> child 0 (policyOpsTotal p) [operation, success] + 1) \<and>
               series (policyOpsDuration (res_logger r))
                 = (series (policyOpsDuration p))
                     ([operation] \<mapsto> child [] (policyOpsDuration p) [operation] @ [secs]) \<and>
               series (policyRulesCount (res_logger r))
                 = (if RuleCount entry > 0
                    then (series (policyRulesCount p))([operation] \<mapsto> real_of_int (RuleCount entry))
                    else series (policyRulesCount p)) \<and>
               filter (\<lambda>e. \<not> is_callback e) (res_effects r)
                 = [EInc (fqName (policyOpsTotal p)) [operation, success],
                    EObserve (fqName (policyOpsDuration p)) [operation] secs]
                   @ (if RuleCount entry > 0
                      then [ESet (fqName (policyRulesCount p)) [operation] (real_of_int (RuleCount entry))]
                      else []) \<and>
               enforceDuration (res_logger r) = enforceDuration p \<and>
               enforceTotal (res_logger r) = enforceTotal p \<and>
               policyStateCount (res_logger r) = policyStateCount p)"
proof -
  have ok: "schema_ok p" using assms(1) by (rule reachable_schema_ok)
  have ne: "EventType entry \<noteq> EventEnforce"
    using assms(3) kinds_distinct by auto
  have v: "ValidString (EventType (entry\<lparr>EndTime := now, Duration := Sub now (StartTime entry)\<rparr>))"
    using assms(3) valid_kinds by auto
  show ?thesis
  proof (cases "callback p")
    case None
    then show ?thesis
      using assms(2,3) ne
      by (simp add: OnAfterEvent_def Let_def recordPolicyMetrics_ok [OF ok v])
  next
    case (Some cb)
    then show ?thesis
      using assms(2,3) ne
      by (simp add: OnAfterEvent_def Let_def recordPolicyMetrics_ok [OF ok v])
  qed
qed

lemma projectLabels_sample:
  "projectLabels [''allowed'', ''domain''] (sampleEntry\<lparr>IsActive := True\<rparr>) = [''true'', ''domain1'']"
  by (simp add: projectLabels_map resolveLabel_def sampleEntry_def)

lemma valid_sample: "list_all ValidString [''true'', ''domain1'']"
  by (simp add: ValidString_def utf8_start_def)

lemma projectLabels_invalid_sample:
  "projectLabels [''allowed'', ''domain''] (sampleEntry\<lparr>IsActive := True, Domain' := [CHR 0xFF]\<rparr>)
     = [''true'', [CHR 0xFF]]"
  by (simp add: projectLabels_map resolveLabel_def sampleEntry_def)

lemma find_invalid_sample:
  "find (\<lambda>v. \<not> ValidString v) [''true'', [CHR 0xFF]] = Some [CHR 0xFF]"
  by (simp add: ValidString_def utf8_start_def)

theorem enforce_recorded_witness:
  "(\<exists>r. OnAfterEvent defaultLogger (sampleEntry\<lparr>IsActive := True\<rparr>) 5 = Inr r \<and>
        series (enforceTotal (res_logger r)) [''true'', ''domain1''] = Some 1 \<and>
        series (enforceDuration (res_logger r)) [''true'', ''domain1''] = Some [Seconds 5] \<and>
        series (enforceTotal (res_logger r)) [''false'', ''domain1''] = None \<and>
        filter (\<lambda>e. \<not> is_callback e) (res_effects r)
          = [EObserve ''casbin_enforce_duration_seconds'' [''true'', ''domain1''] (Seconds 5),
             EInc ''casbin_enforce_total'' [''true'', ''domain1'']])
   \<and> OnAfterEvent defaultLogger (sampleEntry\<lparr>IsActive := True, Domain' := [CHR 0xFF]\<rparr>) 5
       = Inl \<lparr>pan_value = InvalidLabelValue [CHR 0xFF], pan_logger = defaultLogger,
              pan_entry = sampleEntry\<lparr>IsActive := True, Domain' := [CHR 0xFF], EndTime := 5,
                                      Duration := 5\<rparr>,
              pan_effects = []\<rparr>"
proof -
  have a: "IsActive (sampleEntry\<lparr>IsActive := True\<rparr>)" by simp
  have t: "EventType (sampleEntry\<lparr>IsActive := True\<rparr>) = EventEnforce"
    by (simp add: sampleEntry_def)
  have l: "enforceLabels defaultLogger = [''allowed'', ''domain'']"
    by (simp add: defaultLogger_def newLogger_def)
  have s: "StartTime (sampleEntry\<lparr>IsActive := True\<rparr>) = 0" by (simp add: sampleEntry_def)
  have d: "Sub 5 0 = 5" by (simp add: Sub_def maxDuration_def minDuration_def)
  from enforce_recorded [OF reachable_defaultLogger a t, of 5] valid_sample
  obtain r where r: "OnAfterEvent defaultLogger (sampleEntry\<lparr>IsActive := True\<rparr>) 5 = Inr r"
    and tot: "series (enforceTotal (res_logger r))
       = (series (enforceTotal defaultLogger))([''true'', ''domain1''] \<mapsto>
            child 0 (enforceTotal defaultLogger) [''true'', ''domain1''] + 1)"
    and dur: "series (enforceDuration (res_logger r))
       = (series (enforceDuration defaultLogger))([''true'', ''domain1''] \<mapsto>
            child [] (enforceDuration defaultLogger) [''true'', ''domain1''] @ [Seconds 5])"
    and eff: "filter (\<lambda>e. \<not> is_callback e) (res_effects r)
       = [EObserve (fqName (enforceDuration defaultLogger)) [''true'', ''domain1''] (Seconds 5),
          EInc (fqName (enforceTotal defaultLogger)) [''true'', ''domain1'']]"
    unfolding Let_def l projectLabels_sample s d by blast
  have "series (enforceTotal (res_logger r)) [''true'', ''domain1''] = Some 1"
    using tot by (simp add: defaultLogger_def newLogger_def child_def)
  moreover have "series (enforceDuration (res_logger r)) [''true'', ''domain1''] = Some [Seconds 5]"
    using dur by (simp add: defaultLogger_def newLogger_def child_def)
  moreover have "series (enforceTotal (res_logger r)) [''false'', ''domain1''] = None"
    using tot by (simp add: defaultLogger_def newLogger_def)
  moreover have "filter (\<lambda>e. \<not> is_callback e) (res_effects r)
          = [EObserve ''casbin_enforce_duration_seconds'' [''true'', ''domain1''] (Seconds 5),
             EInc ''casbin_enforce_total'' [''true'', ''domain1'']]"
    using eff by (simp add: defaultLogger_def newLogger_def)
  ultimately have good: "\<exists>r. OnAfterEvent defaultLogger (sampleEntry\<lparr>IsActive := True\<rparr>) 5 = Inr r \<and>
        series (enforceTotal (res_logger r)) [''true'', ''domain1''] = Some 1 \<and>
        series (enforceDuration (res_logger r)) [''true'', ''domain1''] = Some [Seconds 5] \<and>
        series (enforceTotal (res_logger r)) [''false'', ''domain1''] = None \<and>
        filter (\<lambda>e. \<not> is_callback e) (res_effects r)
          = [EObserve ''casbin_enforce_duration_seconds'' [''true'', ''domain1''] (Seconds 5),
             EInc ''casbin_enforce_total'' [''true'', ''domain1'']]"
    using r by blast
  let ?b = "sampleEntry\<lparr>IsActive := True, Domain' := [CHR 0xFF]\<rparr>"
  have a': "IsActive ?b" by simp
  have t': "EventType ?b = EventEnforce" by (simp add: sampleEntry_def)
  have s': "Sub 5 (StartTime ?b) = 5"
    by (simp add: Sub_def maxDuration_def minDuration_def sampleEntry_def)
  have bad: "OnAfterEvent defaultLogger ?b 5
       = Inl \<lparr>pan_value = InvalidLabelValue [CHR 0xFF], pan_logger = defaultLogger,
              pan_entry = ?b\<lparr>EndTime := 5, Duration := 5\<rparr>, pan_effects = []\<rparr>"
    using enforce_recorded [OF reachable_defaultLogger a' t', of 5] find_invalid_sample
    unfolding Let_def l projectLabels_invalid_sample s' by blast
  from good bad show ?thesis by simp
qed

text \<open>
  Claim C3 as stated fails: an active \<open>Enforce\<close> entry whose domain is the single byte
  0xFF, which is not valid UTF-8, makes the metric backend panic, and neither the counter
  nor the histogram of the recorder changes.
\<close>

theorem enforce_invalid_label_counterexample:
  "IsActive (sampleEntry\<lparr>IsActive := True, Domain' := [CHR 0xFF]\<rparr>) \<and>
   EventType (sampleEntry\<lparr>IsActive := True, Domain' := [CHR 0xFF]\<rparr>) = EventEnforce \<and>
   OnAfterEvent defaultLogger (sampleEntry\<lparr>IsActive := True, Domain' := [CHR 0xFF]\<rparr>) 5
     = Inl \<lparr>pan_value = InvalidLabelValue [CHR 0xFF], pan_logger = defaultLogger,
            pan_entry = sampleEntry\<lparr>IsActive := True, Domain' := [CHR 0xFF], EndTime := 5,
                                    Duration := 5\<rparr>,
            pan_effects = []\<rparr>"
proof -
  let ?b = "sampleEntry\<lparr>IsActive := True, Domain' := [CHR 0xFF]\<rparr>"
  have ok: "schema_ok defaultLogger" by (simp add: defaultLogger_def newLogger_schema_ok)
  have a: "IsActive ?b" by simp
  have t: "EventType ?b = EventEnforce" by (simp add: sampleEntry_def)
  have f: "find (\<lambda>val. \<not> ValidString val) (projectLabels (enforceLabels defaultLogger) ?b)
      = Some [CHR 0xFF]"
    using find_invalid_sample projectLabels_invalid_sample
    by (simp add: defaultLogger_def newLogger_def)
  have s: "Sub 5 (StartTime sampleEntry) = 5"
    by (simp add: Sub_def maxDuration_def minDuration_def sampleEntry_def)
  from OnAfterEvent_enforce_invalid [OF ok a t f, of 5] a t show ?thesis by (simp add: s)
qed

theorem policy_recorded_witness:
  "\<exists>r. OnAfterEvent defaultLogger
          (sampleEntry\<lparr>IsActive := True, EventType := EventAddPolicy, RuleCount := 3,
                       Error := Some ''test error''\<rparr>) 5 = Inr r \<and>
        series (policyOpsTotal (res_logger r)) [''addPolicy'', ''false''] = Some 1 \<and>
        series (policyOpsDuration (res_logger r)) [''addPolicy''] = Some [Seconds 5] \<and>
        series (policyRulesCount (res_logger r)) [''addPolicy''] = Some 3"
proof -
  let ?e = "sampleEntry\<lparr>IsActive := True, EventType := EventAddPolicy, RuleCount := 3,
                       Error := Some ''test error''\<rparr>"
  have a: "IsActive ?e" by simp
  have t: "EventType ?e = EventAddPolicy \<or> EventType ?e = EventRemovePolicy
         \<or> EventType ?e = EventLoadPolicy \<or> EventType ?e = EventSavePolicy" by simp
  from policy_recorded [OF reachable_defaultLogger a t, of 5]
  obtain r where r: "OnAfterEvent defaultLogger ?e 5 = Inr r"
    and tot: "series (policyOpsTotal (res_logger r))
       = (series (policyOpsTotal defaultLogger))([EventAddPolicy, ''false''] \<mapsto>
            child 0 (policyOpsTotal defaultLogger) [EventAddPolicy, ''false''] + 1)"
    and dur: "series (policyOpsDuration (res_logger r))
       = (series (policyOpsDuration defaultLogger))([EventAddPolicy] \<mapsto>
            child [] (policyOpsDuration defaultLogger) [EventAddPolicy]
              @ [Seconds (Sub 5 (StartTime sampleEntry))])"
    and cnt: "series (policyRulesCount (res_logger r))
       = (series (policyRulesCount defaultLogger))([EventAddPolicy] \<mapsto> 3)"
    by (auto simp: Let_def)
  have d: "Sub 5 (StartTime sampleEntry) = 5"
    by (simp add: Sub_def maxDuration_def minDuration_def sampleEntry_def)
  have "series (policyOpsTotal (res_logger r)) [''addPolicy'', ''false''] = Some 1"
    using tot by (simp add: defaultLogger_def newLogger_def child_def EventAddPolicy_def)
  moreover have "series (policyOpsDuration (res_logger r)) [''addPolicy''] = Some [Seconds 5]"
    using dur d by (simp add: defaultLogger_def newLogger_def child_def EventAddPolicy_def)
  moreover have "series (policyRulesCount (res_logger r)) [''addPolicy''] = Some 3"
    using cnt by (simp add: EventAddPolicy_def)
  ultimately show ?thesis using r by blast
qed

section \<open>The callback, the timing and the unknown kinds\<close>

lemma schema_ok_callback: "schema_ok (p\<lparr>callback := cb\<rparr>) = schema_ok p"
  by (simp add: schema_ok_def)

lemma Sub_nonneg: "u \<le> t \<Longrightarrow> 0 \<le> Sub t u"
  by (simp add: Sub_def Let_def maxDuration_def minDuration_def)

lemma Sub_exact: "minDuration \<le> t - u \<Longrightarrow> t - u \<le> maxDuration \<Longrightarrow> Sub t u = t - u"
  by (simp add: Sub_def Let_def)

lemma OnAfterEvent_enforce_total:
  assumes "schema_ok p" and "IsActive entry" and "EventType entry = EventEnforce"
    and "OnAfterEvent p entry now = Inr r"
    and "list_all ValidString (projectLabels (enforceLabels p) entry)"
  shows "series (enforceTotal (res_logger r))
     = (series (enforceTotal p))
         (projectLabels (enforceLabels p) entry \<mapsto>
            child 0 (enforceTotal p) (projectLabels (enforceLabels p) entry) + 1)"
proof -
  have v: "list_all ValidString (projectLabels (enforceLabels p)
        (entry\<lparr>EndTime := now, Duration := Sub now (StartTime entry)\<rparr>))"
    using assms(5) by (simp add: projectLabels_stamp)
  show ?thesis
  proof (cases "callback p")
    case None
    then show ?thesis
      using assms(2,3,4)
      by (auto simp: OnAfterEvent_def Let_def recordEnforceMetrics_ok [OF assms(1) v] projectLabels_stamp)
  next
    case (Some cb)
    then show ?thesis
      using assms(2,3,4)
      by (auto simp: OnAfterEvent_def Let_def recordEnforceMetrics_ok [OF assms(1) v] projectLabels_stamp)
  qed
qed

text \<open>
  Claim C7, as amended. For a recorder built by the constructor and used through its
  methods, and an active entry that is not an \<open>Enforce\<close> entry with a projected label
  value that is not valid UTF-8, \<open>OnAfterEvent\<close> returns normally. With a callback
  configured, what it does is what it does without one, followed by one invocation of the
  callback on the entry as the hook leaves it; the error it returns is the one the
  callback returned, and the metric families are as they are without a callback, whatever
  that error is. With no callback it returns nil and invokes nothing. For an active
  \<open>Enforce\<close> entry with a projected label value that is not valid UTF-8 the metric
  backend panics: the hook does not return, the recorder is as it was, and the callback
  is not invoked.
\<close>

theorem callback_after_metrics:
  assumes "reachable p" and "IsActive entry"
  shows "((EventType entry = EventEnforce
            \<longrightarrow> list_all ValidString (projectLabels (enforceLabels p) entry)) \<longrightarrow>
          (\<exists>r r0. OnAfterEvent p entry now = Inr r \<and>
             OnAfterEvent (fst (SetLogCallback p None)) entry now = Inr r0 \<and>
             res_logger r = fst (SetLogCallback (res_logger r0) (callback p)) \<and>
             res_entry r = res_entry r0 \<and>
             res_err r0 = None \<and>
             (\<forall>e \<in> set (res_effects r0). \<not> is_callback e) \<and>
             (case callback p of
                None \<Rightarrow> res_err r = None \<and> res_effects r = res_effects r0
              | Some cb \<Rightarrow> res_err r = cb (res_entry r) \<and>
                           res_effects r = res_effects r0 @ [ECallback (res_entry r)])))
         \<and> (EventType entry = EventEnforce
              \<and> \<not> list_all ValidString (projectLabels (enforceLabels p) entry) \<longrightarrow>
            (\<exists>x. OnAfterEvent p entry now = Inl x \<and> pan_logger x = p \<and> pan_effects x = []))"
proof -
  have ok: "schema_ok p" using assms(1) by (rule reachable_schema_ok)
  have ok0: "schema_ok (p\<lparr>callback := None\<rparr>)" using ok by (simp add: schema_ok_callback)
  let ?e2 = "entry\<lparr>EndTime := now, Duration := Sub now (StartTime entry)\<rparr>"
  let ?goal = "\<exists>r r0. OnAfterEvent p entry now = Inr r \<and>
             OnAfterEvent (fst (SetLogCallback p None)) entry now = Inr r0 \<and>
             res_logger r = fst (SetLogCallback (res_logger r0) (callback p)) \<and>
             res_entry r = res_entry r0 \<and>
             res_err r0 = None \<and>
             (\<forall>e \<in> set (res_effects r0). \<not> is_callback e) \<and>
             (case callback p of
                None \<Rightarrow> res_err r = None \<and> res_effects r = res_effects r0
              | Some cb \<Rightarrow> res_err r = cb (res_entry r) \<and>
                           res_effects r = res_effects r0 @ [ECallback (res_entry r)])"
  have good: ?goal
    if valid: "EventType entry = EventEnforce
            \<longrightarrow> list_all ValidString (projectLabels (enforceLabels p) entry)"
  proof (cases "EventType entry = EventEnforce")
    case True
    with valid have v: "list_all ValidString (projectLabels (enforceLabels p) ?e2)"
      by (simp add: projectLabels_stamp)
    then have v0: "list_all ValidString (projectLabels (enforceLabels (p\<lparr>callback := None\<rparr>)) ?e2)"
      by simp
    show ?thesis
    proof (cases "callback p")
      case None
      then show ?thesis
        using assms(2) True
        by (simp add: OnAfterEvent_def Let_def SetLogCallback_def recordEnforceMetrics_ok [OF ok v]
              recordEnforceMetrics_ok [OF ok0 v0])
    next
      case (Some cb)
      then show ?thesis
        using assms(2) True
        by (simp add: OnAfterEvent_def Let_def SetLogCallback_def recordEnforceMetrics_ok [OF ok v]
              recordEnforceMetrics_ok [OF ok0 v0])
    qed
  next
    case False
    note ne = this
    show ?thesis
    proof (cases "EventType entry = EventAddPolicy \<or> EventType entry = EventRemovePolicy
              \<or> EventType entry = EventLoadPolicy \<or> EventType entry = EventSavePolicy")
      case True
      then have v: "ValidString (EventType ?e2)" using valid_kinds by auto
      show ?thesis
      proof (cases "callback p")
        case None
        then show ?thesis
          using assms(2) ne True
          by (auto simp: OnAfterEvent_def Let_def SetLogCallback_def recordPolicyMetrics_ok [OF ok v]
                recordPolicyMetrics_ok [OF ok0 v])
      next
        case (Some cb)
        then show ?thesis
          using assms(2) ne True
          by (auto simp: OnAfterEvent_def Let_def SetLogCallback_def recordPolicyMetrics_ok [OF ok v]
                recordPolicyMetrics_ok [OF ok0 v])
      qed
    next
      case False
      then show ?thesis
        using assms(2) ne
        by (cases "callback p") (simp_all add: OnAfterEvent_def Let_def SetLogCallback_def)
    qed
  qed
  have bad: "\<exists>x. OnAfterEvent p entry now = Inl x \<and> pan_logger x = p \<and> pan_effects x = []"
    if enf: "EventType entry = EventEnforce"
      and inv: "\<not> list_all ValidString (projectLabels (enforceLabels p) entry)"
  proof -
    from inv obtain val where
      "find (\<lambda>val. \<not> ValidString val) (projectLabels (enforceLabels p) entry) = Some val"
      by (cases "find (\<lambda>val. \<not> ValidString val) (projectLabels (enforceLabels p) entry)")
         (simp_all add: find_invalid_None)
    from OnAfterEvent_enforce_invalid [OF ok assms(2) enf this, of now] show ?thesis by simp
  qed
  from good bad show ?thesis by blast
qed

theorem callback_after_metrics_witness:
  "\<exists>r. OnAfterEvent (fst (SetLogCallback defaultLogger (Some failingCallback)))
          (sampleEntry\<lparr>IsActive := True\<rparr>) 5 = Inr r \<and>
        res_err r = Some ''callback error'' \<and>
        filter is_callback (res_effects r) = [ECallback (res_entry r)] \<and>
        last (res_effects r) = ECallback (res_entry r) \<and>
        series (enforceTotal (res_logger r)) [''true'', ''domain1''] = Some 1"
proof -
  let ?p = "fst (SetLogCallback defaultLogger (Some failingCallback))"
  let ?e = "sampleEntry\<lparr>IsActive := True\<rparr>"
  have reach: "reachable ?p" using reachable_defaultLogger by (rule reach_callback)
  have act: "IsActive ?e" by simp
  have cb: "callback ?p = Some failingCallback" by (simp add: SetLogCallback_def)
  have p0: "fst (SetLogCallback ?p None) = defaultLogger"
    by (simp add: SetLogCallback_def defaultLogger_def newLogger_def)
  have lp: "enforceLabels ?p = [''allowed'', ''domain'']"
    by (simp add: SetLogCallback_def defaultLogger_def newLogger_def)
  have valid: "EventType ?e = EventEnforce \<longrightarrow> list_all ValidString (projectLabels (enforceLabels ?p) ?e)"
    unfolding lp projectLabels_sample using valid_sample by simp
  from callback_after_metrics [OF reach act, of 5] valid
  obtain r r0 where r: "OnAfterEvent ?p ?e 5 = Inr r"
    and r0: "OnAfterEvent defaultLogger ?e 5 = Inr r0"
    and lg: "res_logger r = fst (SetLogCallback (res_logger r0) (callback ?p))"
    and nc: "\<forall>e \<in> set (res_effects r0). \<not> is_callback e"
    and c: "res_err r = failingCallback (res_entry r) \<and> res_effects r = res_effects r0 @ [ECallback (res_entry r)]"
    unfolding p0 cb by auto
  have f: "filter is_callback (res_effects r0) = []" using nc by (simp add: filter_empty_conv)
  have ok: "schema_ok defaultLogger" by (simp add: defaultLogger_def newLogger_schema_ok)
  have ty: "EventType ?e = EventEnforce" by (simp add: sampleEntry_def)
  have l: "enforceLabels defaultLogger = [''allowed'', ''domain'']"
    by (simp add: defaultLogger_def newLogger_def)
  have v: "list_all ValidString (projectLabels (enforceLabels defaultLogger) ?e)"
    unfolding l projectLabels_sample by (rule valid_sample)
  have "series (enforceTotal (res_logger r0)) [''true'', ''domain1''] = Some 1"
    using OnAfterEvent_enforce_total [OF ok act ty r0 v]
    by (simp add: l projectLabels_sample child_def defaultLogger_def newLogger_def)
  then have "series (enforceTotal (res_logger r)) [''true'', ''domain1''] = Some 1"
    using lg by (simp add: SetLogCallback_def)
  then show ?thesis using r c f by (simp add: failingCallback_def)
qed

text \<open>
  Claim C7 as stated fails: with a callback configured, an active \<open>Enforce\<close> entry whose
  domain is the single byte 0xFF makes \<open>OnAfterEvent\<close> fail by a panic of the metric
  backend, which is not the callback's error, and the callback is not invoked.
\<close>

theorem callback_not_reached_counterexample:
  "callback (fst (SetLogCallback defaultLogger (Some failingCallback))) = Some failingCallback \<and>
   IsActive (sampleEntry\<lparr>IsActive := True, Domain' := [CHR 0xFF]\<rparr>) \<and>
   OnAfterEvent (fst (SetLogCallback defaultLogger (Some failingCallback)))
       (sampleEntry\<lparr>IsActive := True, Domain' := [CHR 0xFF]\<rparr>) 5
     = Inl \<lparr>pan_value = InvalidLabelValue [CHR 0xFF],
            pan_logger = fst (SetLogCallback defaultLogger (Some failingCallback)),
            pan_entry = sampleEntry\<lparr>IsActive := True, Domain' := [CHR 0xFF], EndTime := 5,
                                    Duration := 5\<rparr>,
            pan_effects = []\<rparr>"
proof -
  let ?p = "fst (SetLogCallback defaultLogger (Some failingCallback))"
  let ?b = "sampleEntry\<lparr>IsActive := True, Domain' := [CHR 0xFF]\<rparr>"
  have ok: "schema_ok ?p"
    by (simp add: SetLogCallback_def schema_ok_callback defaultLogger_def newLogger_schema_ok)
  have a: "IsActive ?b" by simp
  have t: "EventType ?b = EventEnforce" by (simp add: sampleEntry_def)
  have f: "find (\<lambda>val. \<not> ValidString val) (projectLabels (enforceLabels ?p) ?b) = Some [CHR 0xFF]"
    using find_invalid_sample projectLabels_invalid_sample
    by (simp add: SetLogCallback_def defaultLogger_def newLogger_def)
  have s: "Sub 5 (StartTime sampleEntry) = 5"
    by (simp add: Sub_def maxDuration_def minDuration_def sampleEntry_def)
  from OnAfterEvent_enforce_invalid [OF ok a t f, of 5] a show ?thesis
    by (simp add: s SetLogCallback_def)
qed

lemma entryAfter_active:
  assumes "IsActive entry"
  shows "entryAfter (OnAfterEvent p entry now)
     = entry\<lparr>EndTime := now, Duration := Sub now (StartTime entry)\<rparr>"
  using assms
  by (simp add: entryAfter_def OnAfterEvent_def Let_def split: sum.splits prod.splits option.splits)

lemma OnAfterEvent_caller_duration:
  assumes "IsActive entry"
  shows "OnAfterEvent p (entry\<lparr>Duration := d\<rparr>) now = OnAfterEvent p entry now"
proof -
  have "entry\<lparr>Duration := d, EndTime := now,
          Duration := Sub (EndTime (entry\<lparr>Duration := d, EndTime := now\<rparr>))
                          (StartTime (entry\<lparr>Duration := d, EndTime := now\<rparr>))\<rparr>
        = entry\<lparr>EndTime := now,
            Duration := Sub (EndTime (entry\<lparr>EndTime := now\<rparr>)) (StartTime (entry\<lparr>EndTime := now\<rparr>))\<rparr>"
    by simp
  then show ?thesis
    using assms
    by (simp add: OnAfterEvent_def Let_def cong: sum.case_cong prod.case_cong option.case_cong)
qed

text \<open>
  Claim C8, as amended. For every recorder and every active entry, \<open>OnAfterEvent\<close>
  leaves the entry, on return and on a panic of the metric backend alike, with \<open>EndTime\<close>
  the current time, \<open>StartTime\<close> as it was, and \<open>Duration\<close> equal to
  \<open>EndTime.Sub(StartTime)\<close>: that is \<open>EndTime\<close> minus \<open>StartTime\<close> when the
  difference fits the 64 bits of a \<open>Duration\<close>, and the nearest end of that range when
  it does not. The \<open>Duration\<close> the caller had put in the entry plays no part. \<open>Duration\<close>
  is not negative when \<open>StartTime\<close> is not later than the current time.
\<close>

theorem duration_recomputed:
  assumes "IsActive entry"
  shows "(let entry' = entryAfter (OnAfterEvent p entry now)
          in EndTime entry' = now \<and>
             StartTime entry' = StartTime entry \<and>
             Duration entry' = Sub (EndTime entry') (StartTime entry') \<and>
             (minDuration \<le> EndTime entry' - StartTime entry'
                \<and> EndTime entry' - StartTime entry' \<le> maxDuration
                \<longrightarrow> Duration entry' = EndTime entry' - StartTime entry') \<and>
             (StartTime entry \<le> now \<longrightarrow> 0 \<le> Duration entry'))
         \<and> OnAfterEvent p (entry\<lparr>Duration := d\<rparr>) now = OnAfterEvent p entry now"
  using assms
  by (simp add: entryAfter_active OnAfterEvent_caller_duration Let_def Sub_nonneg Sub_exact)

theorem duration_recomputed_witness:
  "Duration (entryAfter (OnAfterEvent defaultLogger
       (sampleEntry\<lparr>IsActive := True, StartTime := 2, Duration := 99\<rparr>) 5)) = 3
   \<and> OnAfterEvent defaultLogger (sampleEntry\<lparr>IsActive := True, StartTime := 2, Duration := 99\<rparr>) 5
     = OnAfterEvent defaultLogger (sampleEntry\<lparr>IsActive := True, StartTime := 2\<rparr>) 5"
proof -
  let ?e = "sampleEntry\<lparr>IsActive := True, StartTime := 2\<rparr>"
  have act: "IsActive ?e" by simp
  note t = duration_recomputed [OF act, of defaultLogger 5 99]
  have same: "OnAfterEvent defaultLogger (?e\<lparr>Duration := 99\<rparr>) 5 = OnAfterEvent defaultLogger ?e 5"
    using t by blast
  let ?e' = "entryAfter (OnAfterEvent defaultLogger ?e 5)"
  note u = t [unfolded Let_def]
  have en: "EndTime ?e' = 5" using u by blast
  have st: "StartTime ?e' = 2" using u by (simp add: sampleEntry_def)
  have fit: "minDuration \<le> EndTime ?e' - StartTime ?e' \<and> EndTime ?e' - StartTime ?e' \<le> maxDuration
      \<longrightarrow> Duration ?e' = EndTime ?e' - StartTime ?e'"
    using u by blast
  have "Duration ?e' = 3"
    using fit unfolding en st by (simp add: minDuration_def maxDuration_def)
  with same show ?thesis by simp
qed

text \<open>
  Claim C8 as stated fails: an active entry whose \<open>StartTime\<close> lies 10000000000000000000
  nanoseconds after the clock's origin and which reaches \<open>OnAfterEvent\<close> when the clock
  reads 5 is left with the \<open>Duration\<close> -9223372036854775808, which is negative and is not
  \<open>EndTime\<close> minus \<open>StartTime\<close>.
\<close>

theorem duration_negative_counterexample:
  "IsActive (sampleEntry\<lparr>IsActive := True, StartTime := 10000000000000000000\<rparr>) \<and>
   entryAfter (OnAfterEvent defaultLogger
       (sampleEntry\<lparr>IsActive := True, StartTime := 10000000000000000000\<rparr>) 5)
     = sampleEntry\<lparr>IsActive := True, StartTime := 10000000000000000000, EndTime := 5,
                    Duration := - 9223372036854775808\<rparr> \<and>
   - 9223372036854775808 \<noteq> (5::int) - 10000000000000000000 \<and>
   \<not> (0::int) \<le> - 9223372036854775808"
proof -
  have "Sub 5 10000000000000000000 = - 9223372036854775808"
    by (simp add: Sub_def Let_def maxDuration_def minDuration_def)
  then show ?thesis by (simp add: entryAfter_active)
qed

text \<open>
  Claim C10. For every recorder and every active entry whose event type is none of the
  five known kinds, \<open>OnAfterEvent\<close> sets \<open>EndTime\<close> and \<open>Duration\<close>, leaves the
  recorder with all its metric families as it is, invokes the callback if there is one,
  once and with the entry, and returns the callback's error, or nil if there is none.
\<close>

theorem unknown_kind_no_metrics:
  assumes "IsActive entry"
    and "EventType entry \<notin> {EventEnforce, EventAddPolicy, EventRemovePolicy, EventLoadPolicy, EventSavePolicy}"
  shows "OnAfterEvent p entry now =
     Inr \<lparr>res_logger = p,
          res_entry = entry\<lparr>EndTime := now, Duration := Sub now (StartTime entry)\<rparr>,
          res_err = (case callback p of
                       None \<Rightarrow> None
                     | Some cb \<Rightarrow> cb (entry\<lparr>EndTime := now, Duration := Sub now (StartTime entry)\<rparr>)),
          res_effects = (case callback p of
                       None \<Rightarrow> []
                     | Some cb \<Rightarrow> [ECallback (entry\<lparr>EndTime := now, Duration := Sub now (StartTime entry)\<rparr>)])\<rparr>"
  using assms by (simp add: OnAfterEvent_def Let_def split: option.splits)

theorem unknown_kind_no_metrics_witness:
  "OnAfterEvent (fst (SetLogCallback defaultLogger (Some (\<lambda>e. Some ''callback error''))))
      (sampleEntry\<lparr>IsActive := True, EventType := ''reloadModel''\<rparr>) 5 =
     Inr \<lparr>res_logger = fst (SetLogCallback defaultLogger (Some (\<lambda>e. Some ''callback error''))),
          res_entry = sampleEntry\<lparr>IsActive := True, EventType := ''reloadModel'', EndTime := 5,
                                  Duration := 5\<rparr>,
          res_err = Some ''callback error'',
          res_effects = [ECallback (sampleEntry\<lparr>IsActive := True, EventType := ''reloadModel'',
                                                EndTime := 5, Duration := 5\<rparr>)]\<rparr>"
proof -
  let ?e = "sampleEntry\<lparr>IsActive := True, EventType := ''reloadModel''\<rparr>"
  have act: "IsActive ?e" by simp
  have kind: "EventType ?e \<notin> {EventEnforce, EventAddPolicy, EventRemovePolicy, EventLoadPolicy, EventSavePolicy}"
    by (simp add: EventEnforce_def EventAddPolicy_def EventRemovePolicy_def EventLoadPolicy_def
          EventSavePolicy_def)
  have s: "Sub 5 (StartTime sampleEntry) = 5"
    by (simp add: Sub_def maxDuration_def minDuration_def sampleEntry_def)
  show ?thesis
    using unknown_kind_no_metrics [OF act kind,
        of "fst (SetLogCallback defaultLogger (Some (\<lambda>e. Some ''callback error'')))" 5]
    by (simp add: s SetLogCallback_def)
qed

section \<open>Registration and unregistration\<close>

lemma Unregister_eq:
  "Unregister r c = (fqName c \<in> collectors r, r\<lparr>collectors := collectors r - {fqName c}\<rparr>)"
  by (simp add: Unregister_def)

lemma UnregisterFrom_snd:
  "snd (UnregisterFrom p r) = r\<lparr>collectors := collectors r - familyNames p\<rparr>"
proof -
  have "collectors r - {fqName (enforceDuration p)} - {fqName (enforceTotal p)}
          - {fqName (policyOpsTotal p)} - {fqName (policyOpsDuration p)}
          - {fqName (policyRulesCount p)} - {fqName (policyStateCount p)}
        = collectors r - familyNames p"
    by (auto simp: familyNames_def)
  then show ?thesis
    by (simp add: UnregisterFrom_def Unregister_eq Let_def)
qed

lemma UnregisterFrom_again:
  "UnregisterFrom p (r\<lparr>collectors := collectors r - familyNames p\<rparr>)
     = (False, r\<lparr>collectors := collectors r - familyNames p\<rparr>)"
proof -
  have "fst (UnregisterFrom p (r\<lparr>collectors := collectors r - familyNames p\<rparr>)) = False"
    by (simp add: UnregisterFrom_def Unregister_eq Let_def familyNames_def)
  moreover have "snd (UnregisterFrom p (r\<lparr>collectors := collectors r - familyNames p\<rparr>))
      = r\<lparr>collectors := collectors r - familyNames p\<rparr>"
    by (simp add: UnregisterFrom_snd Diff_idemp)
  ultimately show ?thesis by (simp add: prod_eq_iff)
qed

lemma UnregisterFrom_fst_newLogger:
  "fst (UnregisterFrom (newLogger labels) r) \<longleftrightarrow> familyNames (newLogger labels) \<subseteq> collectors r"
  by (simp add: UnregisterFrom_def Unregister_eq Let_def familyNames_def newLogger_def) blast

lemma Register_Inr_iff:
  "Register r c = Inr r' \<longleftrightarrow>
     distinct (variableLabels c) \<and>
     (dimsByName r (fqName c) = None \<or>
      dimsByName r (fqName c) = Some (mset (variableLabels c), Help c)) \<and>
     fqName c \<notin> collectors r \<and>
     r' = r\<lparr>collectors := insert (fqName c) (collectors r),
            dimsByName := (dimsByName r)(fqName c \<mapsto> (mset (variableLabels c), Help c))\<rparr>"
  by (auto simp: Register_def split: option.splits)

lemma andThen_Inr_iff: "andThen x f = Inr b \<longleftrightarrow> (\<exists>a. x = Inr a \<and> f a = Inr b)"
  by (cases x) (simp_all add: andThen_def)

lemma MustRegister_newLogger:
  "MustRegister r (newLogger labels) = Inr r1 \<Longrightarrow>
     distinct labels \<and> familyNames (newLogger labels) \<inter> collectors r = {} \<and>
     collectors r1 = collectors r \<union> familyNames (newLogger labels)"
  by (auto simp: MustRegister_def andThen_Inr_iff Register_Inr_iff newLogger_def familyNames_def)

lemma MustRegister_again:
  assumes "MustRegister r (newLogger labels) = Inr r1" and "mset labels2 = mset labels"
  shows "MustRegister (r1\<lparr>collectors := collectors r1 - familyNames (newLogger labels)\<rparr>)
           (newLogger labels2) = Inr r1"
proof -
  have "distinct labels2 = distinct labels"
    using assms(2) by (rule mset_eq_imp_distinct_iff)
  then show ?thesis
    using assms
    by (simp add: MustRegister_def andThen_Inr_iff Register_Inr_iff newLogger_def familyNames_def)
qed

lemma MustRegister_other:
  assumes "MustRegister r (newLogger labels) = Inr r1" and "mset labels2 \<noteq> mset labels"
  shows "MustRegister (r1\<lparr>collectors := collectors r1 - familyNames (newLogger labels)\<rparr>)
           (newLogger labels2)
         = Inl (if distinct labels2
                then InconsistentDescriptor ''casbin_enforce_duration_seconds''
                else InvalidDescriptor ''casbin_enforce_duration_seconds'')"
proof -
  have "dimsByName r1 ''casbin_enforce_duration_seconds''
      = Some (mset labels, ''Duration of enforce requests in seconds'')"
    using assms(1)
    by (auto simp: MustRegister_def andThen_Inr_iff Register_Inr_iff newLogger_def)
  then show ?thesis
    using assms(2)
    by (simp add: MustRegister_def andThen_def Register_def newLogger_def)
qed

lemma Register_Inl_Already:
  "Register r c = Inl (AlreadyRegistered n) \<Longrightarrow> fqName c \<in> collectors r"
  by (auto simp: Register_def split: if_splits option.splits)

lemma andThen_Inl_iff:
  "andThen x f = Inl e \<longleftrightarrow> x = Inl e \<or> (\<exists>a. x = Inr a \<and> f a = Inl e)"
  by (cases x) (simp_all add: andThen_def)

lemma MustRegister_no_collision:
  assumes "familyNames (newLogger labels) \<inter> collectors r = {}"
  shows "MustRegister r (newLogger labels') \<noteq> Inl (AlreadyRegistered n)"
  using assms
  by (auto simp: MustRegister_def andThen_Inl_iff Register_Inr_iff newLogger_def familyNames_def
           dest!: Register_Inl_Already)

lemma New_Some_Inr:
  assumes "NewPrometheusLoggerWithOptions (Some r) options d = Inr (q, x, d1)"
  shows "\<exists>labels r1. q = newLogger labels \<and> x = Some r1 \<and> d1 = d \<and>
           MustRegister r (newLogger labels) = Inr r1"
  using assms
  by (auto simp: NewPrometheusLoggerWithOptions_def Let_def andThen_Inr_iff)

lemma New_Some_Inl:
  "NewPrometheusLoggerWithOptions (Some r) options d = Inl e \<Longrightarrow>
     \<exists>labels. MustRegister r (newLogger labels) = Inl e"
  by (auto simp: NewPrometheusLoggerWithOptions_def Let_def andThen_Inl_iff)

lemma New_resolved:
  "NewPrometheusLoggerWithOptions (Some r) options d
     = andThen (MustRegister r (newLogger (resolvedLabels options)))
         (\<lambda>r'. Inr (newLogger (resolvedLabels options), Some r', d))"
  by (simp add: NewPrometheusLoggerWithOptions_def resolvedLabels_def Let_def)

text \<open>
  Claim C9, as amended. For every recorder and every registry, \<open>UnregisterFrom\<close>
  completes, and afterwards none of the recorder's six families is registered while
  nothing else in the registry has changed. A second call on the resulting registry
  completes as well: it answers \<open>false\<close> and leaves the registry as it is. On any
  registry, with some or all of the families missing, the call completes and its answer
  tells whether all six were registered. After a construction on a registry and
  \<open>UnregisterFrom\<close> on the result, which answers \<open>true\<close>, a second construction on that
  registry succeeds when its options resolve to the same enforcement label names, in any
  order, and gives the registry of the first construction; when they resolve to other
  label names it is refused, as an inconsistent descriptor (or an invalid one when a name
  repeats). No construction on that registry, with any options, fails because a name is
  registered already.
\<close>

theorem unregister_then_construct:
  "collectors (snd (UnregisterFrom p registry)) = collectors registry - familyNames p
   \<and> dimsByName (snd (UnregisterFrom p registry)) = dimsByName registry
   \<and> UnregisterFrom p (snd (UnregisterFrom p registry)) = (False, snd (UnregisterFrom p registry))
   \<and> (fst (UnregisterFrom (newLogger labels) registry)
        \<longleftrightarrow> familyNames (newLogger labels) \<subseteq> collectors registry)
   \<and> (NewPrometheusLoggerWithOptions (Some registry) options d = Inr (q, registry', d')
        \<longrightarrow> (\<exists>registry1. registry' = Some registry1 \<and> d' = d \<and>
               q = newLogger (resolvedLabels options) \<and>
               fst (UnregisterFrom q registry1) \<and>
               (\<forall>options2.
                  NewPrometheusLoggerWithOptions (Some (snd (UnregisterFrom q registry1))) options2 d
                    = (if mset (resolvedLabels options2) = mset (resolvedLabels options)
                       then Inr (newLogger (resolvedLabels options2), Some registry1, d)
                       else if distinct (resolvedLabels options2)
                       then Inl (InconsistentDescriptor ''casbin_enforce_duration_seconds'')
                       else Inl (InvalidDescriptor ''casbin_enforce_duration_seconds''))) \<and>
               (\<forall>options2 n.
                  NewPrometheusLoggerWithOptions (Some (snd (UnregisterFrom q registry1))) options2 d
                    \<noteq> Inl (AlreadyRegistered n))))"
proof -
  have a: "collectors (snd (UnregisterFrom p registry)) = collectors registry - familyNames p"
    and b: "dimsByName (snd (UnregisterFrom p registry)) = dimsByName registry"
    by (simp_all add: UnregisterFrom_snd)
  have c: "UnregisterFrom p (snd (UnregisterFrom p registry)) = (False, snd (UnregisterFrom p registry))"
    by (simp add: UnregisterFrom_snd UnregisterFrom_again)
  have e: "\<exists>registry1. registry' = Some registry1 \<and> d' = d \<and>
               q = newLogger (resolvedLabels options) \<and>
               fst (UnregisterFrom q registry1) \<and>
               (\<forall>options2.
                  NewPrometheusLoggerWithOptions (Some (snd (UnregisterFrom q registry1))) options2 d
                    = (if mset (resolvedLabels options2) = mset (resolvedLabels options)
                       then Inr (newLogger (resolvedLabels options2), Some registry1, d)
                       else if distinct (resolvedLabels options2)
                       then Inl (InconsistentDescriptor ''casbin_enforce_duration_seconds'')
                       else Inl (InvalidDescriptor ''casbin_enforce_duration_seconds''))) \<and>
               (\<forall>options2 n.
                  NewPrometheusLoggerWithOptions (Some (snd (UnregisterFrom q registry1))) options2 d
                    \<noteq> Inl (AlreadyRegistered n))"
    if new: "NewPrometheusLoggerWithOptions (Some registry) options d = Inr (q, registry', d')"
  proof -
    let ?ls = "resolvedLabels options"
    from new obtain r1 where
      q: "q = newLogger ?ls" and r': "registry' = Some r1" and d: "d' = d"
      and reg: "MustRegister registry (newLogger ?ls) = Inr r1"
      by (auto simp: New_resolved andThen_Inr_iff)
    let ?r2 = "snd (UnregisterFrom q r1)"
    have r2: "?r2 = r1\<lparr>collectors := collectors r1 - familyNames (newLogger ?ls)\<rparr>"
      by (simp add: UnregisterFrom_snd q)
    have sub: "familyNames (newLogger ?ls) \<subseteq> collectors r1"
      using MustRegister_newLogger [OF reg] by simp
    then have ok: "fst (UnregisterFrom q r1)"
      by (simp add: q UnregisterFrom_fst_newLogger)
    have second: "NewPrometheusLoggerWithOptions (Some ?r2) options2 d
        = (if mset (resolvedLabels options2) = mset ?ls
           then Inr (newLogger (resolvedLabels options2), Some r1, d)
           else if distinct (resolvedLabels options2)
           then Inl (InconsistentDescriptor ''casbin_enforce_duration_seconds'')
           else Inl (InvalidDescriptor ''casbin_enforce_duration_seconds''))" for options2
    proof (cases "mset (resolvedLabels options2) = mset ?ls")
      case True
      have "MustRegister ?r2 (newLogger (resolvedLabels options2)) = Inr r1"
        unfolding r2 using reg True by (rule MustRegister_again)
      then show ?thesis using True by (simp add: New_resolved andThen_def)
    next
      case False
      have "MustRegister ?r2 (newLogger (resolvedLabels options2))
         = Inl (if distinct (resolvedLabels options2)
                then InconsistentDescriptor ''casbin_enforce_duration_seconds''
                else InvalidDescriptor ''casbin_enforce_duration_seconds'')"
        unfolding r2 using reg False by (rule MustRegister_other)
      then show ?thesis using False by (simp add: New_resolved andThen_def)
    qed
    have free: "familyNames (newLogger ?ls) \<inter> collectors ?r2 = {}"
      unfolding r2 by auto
    have "NewPrometheusLoggerWithOptions (Some ?r2) options2 d \<noteq> Inl (AlreadyRegistered n)"
      for options2 n
      using New_Some_Inl [of ?r2 options2 d "AlreadyRegistered n"]
        MustRegister_no_collision [OF free] by blast
    with r' d q ok second show ?thesis by blast
  qed
  from a b c e show ?thesis
    by (simp add: UnregisterFrom_fst_newLogger)
qed

lemma New_default_eq:
  "NewPrometheusLoggerWithOptions (Some emptyRegistry) None emptyRegistry
     = Inr (defaultLogger, Some defaultRegistered, emptyRegistry)"
  by (simp add: NewPrometheusLoggerWithOptions_def Let_def andThen_def MustRegister_def
        Register_def newLogger_def defaultLogger_def emptyRegistry_def defaultRegistered_def)

lemma resolved_samples:
  "resolvedLabels None = [''allowed'', ''domain'']"
  "resolvedLabels (Some \<lparr>EnforceLabels = [''object'', ''subject'']\<rparr>)
     = [''allowed'', ''domain'', ''object'', ''subject'']"
  "resolvedLabels (Some \<lparr>EnforceLabels = [''subject'', ''object'']\<rparr>)
     = [''allowed'', ''domain'', ''subject'', ''object'']"
  "resolvedLabels (Some \<lparr>EnforceLabels = [''subject'']\<rparr>) = [''allowed'', ''domain'', ''subject'']"
  by (simp_all add: resolvedLabels_def)

theorem unregister_then_construct_witness:
  "NewPrometheusLoggerWithOptions (Some emptyRegistry) None emptyRegistry
     = Inr (defaultLogger, Some defaultRegistered, emptyRegistry)
   \<and> fst (UnregisterFrom defaultLogger defaultRegistered)
   \<and> collectors (snd (UnregisterFrom defaultLogger defaultRegistered)) = {}
   \<and> UnregisterFrom defaultLogger (snd (UnregisterFrom defaultLogger defaultRegistered))
       = (False, snd (UnregisterFrom defaultLogger defaultRegistered))
   \<and> \<not> fst (UnregisterFrom defaultLogger emptyRegistry)
   \<and> NewPrometheusLoggerWithOptions (Some (snd (UnregisterFrom defaultLogger defaultRegistered)))
        None emptyRegistry
       = Inr (defaultLogger, Some defaultRegistered, emptyRegistry)
   \<and> NewPrometheusLoggerWithOptions (Some (snd (UnregisterFrom defaultLogger defaultRegistered)))
        (Some \<lparr>EnforceLabels = [''subject'']\<rparr>) emptyRegistry
       = Inl (InconsistentDescriptor ''casbin_enforce_duration_seconds'')"
proof -
  note new = New_default_eq
  note t1 = unregister_then_construct [of defaultLogger defaultRegistered "[''allowed'', ''domain'']"
      None emptyRegistry defaultLogger "Some defaultRegistered" emptyRegistry]
  note t2 = unregister_then_construct [of defaultLogger emptyRegistry "[''allowed'', ''domain'']"
      None emptyRegistry defaultLogger "Some defaultRegistered" emptyRegistry]
  have names: "collectors defaultRegistered - familyNames defaultLogger = {}"
    by (auto simp: defaultRegistered_def familyNames_def defaultLogger_def newLogger_def)
  have c3: "collectors (snd (UnregisterFrom defaultLogger defaultRegistered)) = {}"
    using t1 names by simp
  have c4: "UnregisterFrom defaultLogger (snd (UnregisterFrom defaultLogger defaultRegistered))
       = (False, snd (UnregisterFrom defaultLogger defaultRegistered))"
    using t1 by blast
  have c5: "\<not> fst (UnregisterFrom defaultLogger emptyRegistry)"
  proof -
    have "fst (UnregisterFrom (newLogger [''allowed'', ''domain'']) emptyRegistry)
        \<longleftrightarrow> familyNames (newLogger [''allowed'', ''domain'']) \<subseteq> collectors emptyRegistry"
      using t2 by blast
    then show ?thesis
      by (simp add: defaultLogger_def emptyRegistry_def familyNames_def)
  qed
  from t2 new have c2: "fst (UnregisterFrom defaultLogger defaultRegistered)"
    and sec: "NewPrometheusLoggerWithOptions (Some (snd (UnregisterFrom defaultLogger defaultRegistered))) options2 emptyRegistry
          = (if mset (resolvedLabels options2) = mset (resolvedLabels None)
             then Inr (newLogger (resolvedLabels options2), Some defaultRegistered, emptyRegistry)
             else if distinct (resolvedLabels options2)
             then Inl (InconsistentDescriptor ''casbin_enforce_duration_seconds'')
             else Inl (InvalidDescriptor ''casbin_enforce_duration_seconds''))" for options2
    by auto
  have c6: "NewPrometheusLoggerWithOptions (Some (snd (UnregisterFrom defaultLogger defaultRegistered)))
        None emptyRegistry = Inr (defaultLogger, Some defaultRegistered, emptyRegistry)"
    using sec [of None] by (simp add: resolved_samples defaultLogger_def)
  have c7: "NewPrometheusLoggerWithOptions (Some (snd (UnregisterFrom defaultLogger defaultRegistered)))
        (Some \<lparr>EnforceLabels = [''subject'']\<rparr>) emptyRegistry
       = Inl (InconsistentDescriptor ''casbin_enforce_duration_seconds'')"
    using sec [of "Some \<lparr>EnforceLabels = [''subject'']\<rparr>"] by (simp add: resolved_samples)
  from new c2 c3 c4 c5 c6 c7 show ?thesis by blast
qed

text \<open>
  Claim C9 as stated fails: after the default recorder has been built on an empty registry
  and unregistered from it, which answers \<open>true\<close>, a second construction on that
  registry with the option \<open>subject\<close> does not succeed: the registry refuses the first
  family, whose label names are not the ones it has seen under that name.
\<close>

theorem second_construct_counterexample:
  "NewPrometheusLoggerWithOptions (Some emptyRegistry) None emptyRegistry
     = Inr (defaultLogger, Some defaultRegistered, emptyRegistry)
   \<and> fst (UnregisterFrom defaultLogger defaultRegistered)
   \<and> NewPrometheusLoggerWithOptions (Some (snd (UnregisterFrom defaultLogger defaultRegistered)))
        (Some \<lparr>EnforceLabels = [''subject'']\<rparr>) emptyRegistry
       = Inl (InconsistentDescriptor ''casbin_enforce_duration_seconds'')"
proof -
  have "fst (UnregisterFrom defaultLogger defaultRegistered)"
    unfolding defaultLogger_def UnregisterFrom_fst_newLogger
    by (simp add: familyNames_def newLogger_def defaultRegistered_def)
  moreover have "NewPrometheusLoggerWithOptions (Some (snd (UnregisterFrom defaultLogger defaultRegistered)))
        (Some \<lparr>EnforceLabels = [''subject'']\<rparr>) emptyRegistry
       = Inl (InconsistentDescriptor ''casbin_enforce_duration_seconds'')"
    by (simp add: UnregisterFrom_snd NewPrometheusLoggerWithOptions_def Let_def andThen_def
          MustRegister_def Register_def newLogger_def defaultRegistered_def)
  ultimately show ?thesis using New_default_eq by simp
qed

end
